theory Spec2Isabelle
  imports Complex_Main
begin

section \<open>The Hours-of-Service rule engine (trips/hos\_engine.py)\<close>

text \<open>
  A shallow embedding of \<^verbatim>\<open>backend/trips/hos_engine.py\<close>. All times are integer
  minutes (Python \<^verbatim>\<open>int\<close>, here \<^typ>\<open>int\<close>). A Python \<^verbatim>\<open>float\<close> is an IEEE 754
  binary64 number; it is modelled by the real number it denotes, and every floating
  point operation of the source returns the exact result rounded to the nearest
  double, a tie to the even neighbour (\<open>fl\<close> below). Overflow to an infinity, and
  with it NaN, is outside the model. A parameter annotated \<^verbatim>\<open>float\<close> is read as a
  float also where Python would accept an \<^verbatim>\<open>int\<close>. A calendar date is its day
  ordinal (\<^verbatim>\<open>date.toordinal()\<close>); the upper limit of Python's \<^verbatim>\<open>date\<close> is outside the
  model as well. The mutable \<^verbatim>\<open>DriverState\<close> is passed explicitly and returned
  updated.
\<close>

subsection \<open>Constants\<close>

definition DRIVE_LIMIT :: int where "DRIVE_LIMIT = 11 * 60"
definition WINDOW_LIMIT :: int where "WINDOW_LIMIT = 14 * 60"
definition BREAK_TRIGGER :: int where "BREAK_TRIGGER = 8 * 60"
definition BREAK_DURATION :: int where "BREAK_DURATION = 30"
definition OFF_DUTY_RESET :: int where "OFF_DUTY_RESET = 10 * 60"
definition CYCLE_LIMIT :: int where "CYCLE_LIMIT = 70 * 60"
definition FUEL_INTERVAL_MILES :: int where "FUEL_INTERVAL_MILES = 1000"
definition FUEL_DURATION :: int where "FUEL_DURATION = 30"
definition PICKUP_DURATION :: int where "PICKUP_DURATION = 60"
definition DROPOFF_DURATION :: int where "DROPOFF_DURATION = 60"
definition AVG_SPEED_MPH :: int where "AVG_SPEED_MPH = 55"
definition MINUTES_IN_DAY :: int where "MINUTES_IN_DAY = 1440"

lemmas hos_constants =
  DRIVE_LIMIT_def WINDOW_LIMIT_def BREAK_TRIGGER_def BREAK_DURATION_def
  OFF_DUTY_RESET_def CYCLE_LIMIT_def FUEL_INTERVAL_MILES_def FUEL_DURATION_def
  PICKUP_DURATION_def DROPOFF_DURATION_def AVG_SPEED_MPH_def MINUTES_IN_DAY_def

subsection \<open>Enumerations and data classes\<close>

datatype Status = OFF_DUTY | SLEEPER | DRIVING | ON_DUTY_NOT_DRIVING

datatype StopKind = FUEL | BREAK_30 | OFF_DUTY_10 | PICKUP | DROPOFF

type_synonym date = int

text \<open>
  \<^verbatim>\<open>TimelineEvent(start, end, status, label="", miles=0.0)\<close>: one block
  \<open>[start, end)\<close> of the global timeline. (\<open>end\<close> is reserved in Isabelle, hence the
  \<open>ev_\<close> prefix; field names are global constants, hence the prefixes elsewhere.)
\<close>

record TimelineEvent =
  ev_start :: int
  ev_end :: int
  ev_status :: Status
  ev_label :: string
  ev_miles :: real

record StopEvent =
  stop_kind :: StopKind
  stop_global_minute :: int
  stop_duration :: int
  stop_label :: string
  stop_lat :: real
  stop_lng :: real

text \<open>
  The dictionaries \<^verbatim>\<open>{start_minute, end_minute, status, location_label}\<close> that make up
  a day sheet. \<^verbatim>\<open>status\<close> holds \<^verbatim>\<open>evt.status.value\<close>, the name of the enum member,
  which is modelled by the member itself.
\<close>

record Segment =
  start_minute :: int
  end_minute :: int
  seg_status :: Status
  location_label :: string

record DaySheet =
  sheet_date :: date
  sheet_segments :: "Segment list"
  sheet_total_miles :: real

text \<open>
  \<^verbatim>\<open>DriverState\<close>. The field \<^verbatim>\<open>cycle_minutes\<close> is annotated \<^verbatim>\<open>float\<close> in the
  source, but it is initialised with \<^verbatim>\<open>int(...)\<close> and only ever incremented by
  integers, so it is an integer throughout.
\<close>

record DriverState =
  global_minute :: int
  drive_minutes :: int
  on_duty_minutes :: int
  cumulative_drive :: int
  cycle_minutes :: int
  miles_since_fuel :: real
  timeline :: "TimelineEvent list"
  stops :: "StopEvent list"

text \<open>The dictionary returned by \<^verbatim>\<open>compute_plan\<close>.\<close>

record Plan =
  plan_timeline :: "TimelineEvent list"
  plan_stops :: "StopEvent list"
  daily_sheets :: "DaySheet list"
  trip_completed :: bool
  remaining_drive_minutes :: int
  planned_fuel_stops :: int

text \<open>The arguments of \<^verbatim>\<open>compute_plan\<close>; an optional argument is \<open>None\<close> when absent.\<close>

record PlanArgs =
  total_miles :: real
  total_drive_minutes :: int
  cycle_used_hours :: real
  pickup_label :: string
  dropoff_label :: string
  pickup_coords :: "real \<times> real"
  dropoff_coords :: "real \<times> real"
  start_date :: "date option"
  leg1_miles :: "real option"
  leg1_minutes :: "int option"
  leg2_miles :: "real option"
  leg2_minutes :: "int option"

subsection \<open>Python primitives\<close>

text \<open>\<^verbatim>\<open>int(x)\<close> on a float truncates toward zero.\<close>

definition py_int :: "real \<Rightarrow> int" where
  "py_int x = (if 0 \<le> x then \<lfloor>x\<rfloor> else \<lceil>x\<rceil>)"

text \<open>\<^verbatim>\<open>round(x)\<close> rounds to the nearest integer, a tie to the even neighbour.\<close>

definition py_round :: "real \<Rightarrow> int" where
  "py_round x =
     (let f = \<lfloor>x\<rfloor>; r = x - of_int f
      in if r < 1 / 2 then f
         else if 1 / 2 < r then f + 1
         else if even f then f else f + 1)"

subsection \<open>Floating point\<close>

text \<open>
  The binade of a real: the exponent \<open>e\<close> with \<open>2\<^sup>e \<le> \<bar>x\<bar> < 2\<^sup>e\<^sup>+\<^sup>1\<close>, found by halving
  or doubling, and not below the exponent \<open>- 1022\<close> of the subnormal numbers.
\<close>

fun binade_fuel :: "nat \<Rightarrow> real \<Rightarrow> int" where
  "binade_fuel 0 x = 0"
| "binade_fuel (Suc n) x =
     (if 2 \<le> x then binade_fuel n (x / 2) + 1
      else if x < 1 then binade_fuel n (2 * x) - 1
      else 0)"

definition binade :: "real \<Rightarrow> int" where
  "binade x = max (- 1022) (binade_fuel 1075 \<bar>x\<bar>)"

text \<open>The distance of neighbouring doubles at \<open>x\<close> (53 significant bits).\<close>

definition ulp :: "real \<Rightarrow> real" where
  "ulp x = 2 powi (binade x - 52)"

text \<open>Rounding to the nearest double, a tie to the one with the even significand.\<close>

definition fl :: "real \<Rightarrow> real" where
  "fl x = of_int (py_round (x / ulp x)) * ulp x"

text \<open>The operations \<^verbatim>\<open>+\<close>, \<^verbatim>\<open>-\<close>, \<^verbatim>\<open>*\<close>, \<^verbatim>\<open>/\<close> on floats, and \<^verbatim>\<open>float(n)\<close> of an integer.\<close>

definition fadd :: "real \<Rightarrow> real \<Rightarrow> real" where
  "fadd x y = fl (x + y)"

definition fsub :: "real \<Rightarrow> real \<Rightarrow> real" where
  "fsub x y = fl (x - y)"

definition fmul :: "real \<Rightarrow> real \<Rightarrow> real" where
  "fmul x y = fl (x * y)"

definition fdiv :: "real \<Rightarrow> real \<Rightarrow> real" where
  "fdiv x y = fl (x / y)"

definition float_of_int :: "int \<Rightarrow> real" where
  "float_of_int n = fl (of_int n)"

text \<open>
  The true division \<^verbatim>\<open>a / b\<close> of two integers: the quotient of the integers themselves,
  rounded once.
\<close>

definition int_truediv :: "int \<Rightarrow> int \<Rightarrow> real" where
  "int_truediv a b = fl (of_int a / of_int b)"

text \<open>
  \<^verbatim>\<open>round(x, 1)\<close>: the double nearest to \<open>x\<close> rounded to one decimal place.
\<close>

definition py_round1 :: "real \<Rightarrow> real" where
  "py_round1 x = fl (of_int (py_round (x * 10)) / 10)"

text \<open>The character U+2014 (em dash) of the stop labels, as its UTF-8 bytes.\<close>

definition EM_DASH :: string where
  "EM_DASH = [CHR 0xE2, CHR 0x80, CHR 0x94]"

subsection \<open>Stop inserters\<close>

definition insert_break :: "DriverState \<Rightarrow> string \<Rightarrow> DriverState" where
  "insert_break state label =
     state\<lparr>stops := stops state @
              [\<lparr>stop_kind = BREAK_30,
                stop_global_minute = global_minute state,
                stop_duration = BREAK_DURATION,
                stop_label = ''30-min break '' @ EM_DASH @ '' '' @ label,
                stop_lat = 0, stop_lng = 0\<rparr>],
           timeline := timeline state @
              [\<lparr>ev_start = global_minute state,
                ev_end = global_minute state + BREAK_DURATION,
                ev_status = OFF_DUTY,
                ev_label = ''30-min break'',
                ev_miles = 0\<rparr>],
           global_minute := global_minute state + BREAK_DURATION,
           on_duty_minutes := on_duty_minutes state + BREAK_DURATION,
           cumulative_drive := 0\<rparr>"

definition insert_reset :: "DriverState \<Rightarrow> DriverState" where
  "insert_reset state =
     state\<lparr>stops := stops state @
              [\<lparr>stop_kind = OFF_DUTY_10,
                stop_global_minute = global_minute state,
                stop_duration = OFF_DUTY_RESET,
                stop_label = ''10-hour off-duty reset'',
                stop_lat = 0, stop_lng = 0\<rparr>],
           timeline := timeline state @
              [\<lparr>ev_start = global_minute state,
                ev_end = global_minute state + OFF_DUTY_RESET,
                ev_status = SLEEPER,
                ev_label = ''10-hour sleeper berth reset'',
                ev_miles = 0\<rparr>],
           global_minute := global_minute state + OFF_DUTY_RESET,
           drive_minutes := 0,
           on_duty_minutes := 0,
           cumulative_drive := 0\<rparr>"

definition insert_fuel_stop :: "DriverState \<Rightarrow> string \<Rightarrow> DriverState" where
  "insert_fuel_stop state label =
     state\<lparr>stops := stops state @
              [\<lparr>stop_kind = FUEL,
                stop_global_minute = global_minute state,
                stop_duration = FUEL_DURATION,
                stop_label = ''Fuel stop '' @ EM_DASH @ '' '' @ label,
                stop_lat = 0, stop_lng = 0\<rparr>],
           timeline := timeline state @
              [\<lparr>ev_start = global_minute state,
                ev_end = global_minute state + FUEL_DURATION,
                ev_status = ON_DUTY_NOT_DRIVING,
                ev_label = ''Fuel stop'',
                ev_miles = 0\<rparr>],
           global_minute := global_minute state + FUEL_DURATION,
           on_duty_minutes := on_duty_minutes state + FUEL_DURATION,
           cycle_minutes := cycle_minutes state + FUEL_DURATION,
           miles_since_fuel := 0\<rparr>"

text \<open>
  \<^verbatim>\<open>_insert_on_duty_stop\<close>: a reset first when the 14-hour window cannot take the
  stop; the cycle is not consulted.
\<close>

definition insert_on_duty_stop ::
  "DriverState \<Rightarrow> int \<Rightarrow> StopKind \<Rightarrow> string \<Rightarrow> real \<Rightarrow> real \<Rightarrow> DriverState" where
  "insert_on_duty_stop state0 duration kind label lat lng =
     (let window_remaining = WINDOW_LIMIT - on_duty_minutes state0;
          state = (if window_remaining < duration then insert_reset state0 else state0)
      in state\<lparr>stops := stops state @
                  [\<lparr>stop_kind = kind,
                    stop_global_minute = global_minute state,
                    stop_duration = duration,
                    stop_label = label,
                    stop_lat = lat, stop_lng = lng\<rparr>],
               timeline := timeline state @
                  [\<lparr>ev_start = global_minute state,
                    ev_end = global_minute state + duration,
                    ev_status = ON_DUTY_NOT_DRIVING,
                    ev_label = label,
                    ev_miles = 0\<rparr>],
               global_minute := global_minute state + duration,
               on_duty_minutes := on_duty_minutes state + duration,
               cycle_minutes := cycle_minutes state + duration\<rparr>)"

subsection \<open>Properties of the rounding\<close>

lemma py_round_cases: "py_round x = \<lfloor>x\<rfloor> \<or> py_round x = \<lfloor>x\<rfloor> + 1"
  by (simp add: py_round_def Let_def)

lemma py_round_of_int [simp]: "py_round (of_int k) = k"
  by (simp add: py_round_def)

lemma py_round_le: "x \<le> of_int k \<Longrightarrow> py_round x \<le> k"
proof (cases "x = of_int k")
  case True then show ?thesis by simp
next
  case False
  assume "x \<le> of_int k"
  with False have "x < of_int k" by simp
  then have "\<lfloor>x\<rfloor> < k" by (simp add: floor_less_iff)
  with py_round_cases[of x] show ?thesis by auto
qed

lemma py_round_ge: "of_int k \<le> x \<Longrightarrow> k \<le> py_round x"
proof -
  assume "of_int k \<le> x"
  then have "k \<le> \<lfloor>x\<rfloor>" by (simp add: le_floor_iff)
  with py_round_cases[of x] show ?thesis by auto
qed

lemma py_round_error: "\<bar>of_int (py_round x) - x\<bar> \<le> 1 / 2"
proof -
  have "of_int \<lfloor>x\<rfloor> \<le> x" "x < of_int \<lfloor>x\<rfloor> + 1" by linarith+
  then show ?thesis
    by (auto simp add: py_round_def Let_def abs_le_iff)
qed

lemma two_powi_pos [simp]: "0 < (2::real) powi e"
  by (simp add: zero_less_power_int)

lemma two_powi_Suc: "(2::real) powi (e + 1) = 2 * 2 powi e"
  by (simp add: power_int_add_1')

lemma two_powi_pred: "(2::real) powi (e - 1) = 2 powi e / 2"
  using two_powi_Suc[of "e - 1"] by simp

lemma two_powi_less_iff: "(2::real) powi m < 2 powi n \<longleftrightarrow> m < n"
proof
  assume "(2::real) powi m < 2 powi n"
  show "m < n"
  proof (rule ccontr)
    assume "\<not> m < n"
    then have "(2::real) powi n \<le> 2 powi m" by (intro power_int_increasing) simp_all
    with \<open>(2::real) powi m < 2 powi n\<close> show False by simp
  qed
next
  assume "m < n" then show "(2::real) powi m < 2 powi n"
    by (intro power_int_strict_increasing) simp_all
qed

lemma binade_fuel_exact:
  "2 powi e \<le> x \<Longrightarrow> x < 2 powi (e + 1) \<Longrightarrow> \<bar>e\<bar> \<le> int n \<Longrightarrow> binade_fuel n x = e"
proof (induction n arbitrary: x e)
  case 0
  then show ?case by simp
next
  case (Suc n)
  consider "2 \<le> x" | "x < 1" | "1 \<le> x" "x < 2" by linarith
  then show ?case
  proof cases
    case 1
    with Suc.prems(2) have "(2::real) powi 1 < 2 powi (e + 1)" by simp
    then have "1 < e + 1" by (simp only: two_powi_less_iff)
    then have e: "1 \<le> e" by linarith
    have "binade_fuel n (x / 2) = e - 1"
      using Suc.prems e by (intro Suc.IH) (simp_all add: two_powi_pred two_powi_Suc)
    with 1 show ?thesis by simp
  next
    case 2
    with Suc.prems(1) have "(2::real) powi e < 2 powi 0" by simp
    then have e: "e < 0" by (simp only: two_powi_less_iff)
    have a: "2 powi (e + 1) \<le> 2 * x" using Suc.prems(1) by (simp add: two_powi_Suc)
    have "2 * x < 2 * 2 powi (e + 1)" using Suc.prems(2) by simp
    then have b: "2 * x < 2 powi (e + 1 + 1)" by (simp only: two_powi_Suc[of "e + 1"])
    have c: "\<bar>e + 1\<bar> \<le> int n" using Suc.prems(3) e by simp
    have "binade_fuel n (2 * x) = e + 1" by (rule Suc.IH[OF a b c])
    with 2 show ?thesis by simp
  next
    case 3
    with Suc.prems have "(2::real) powi e < 2 powi 1" "(2::real) powi 0 < 2 powi (e + 1)" by simp_all
    then have "e < 1" "0 < e + 1" by (simp_all only: two_powi_less_iff)
    then have "e = 0" by linarith
    with 3 show ?thesis by simp
  qed
qed

lemma binade_fuel_upper: "binade_fuel n x \<le> int n"
proof (induction n arbitrary: x)
  case 0
  show ?case by simp
next
  case (Suc n)
  from Suc[of "x / 2"] Suc[of "2 * x"] show ?case by simp
qed

lemma binade_fuel_small:
  "0 \<le> x \<Longrightarrow> x < 2 powi (- int n) \<Longrightarrow> binade_fuel n x = - int n"
proof (induction n arbitrary: x)
  case 0
  then show ?case by simp
next
  case (Suc n)
  have "(2::real) powi (- int (Suc n)) \<le> 2 powi (- 1)" by (intro power_int_increasing) simp_all
  with Suc.prems have x: "x < 1 / 2" by simp
  have "2 powi (- int n) = 2 * (2::real) powi (- int (Suc n))"
    using two_powi_Suc[of "- int (Suc n)"] by simp
  with Suc.prems have "binade_fuel n (2 * x) = - int n" by (intro Suc.IH) simp_all
  with x show ?case by simp
qed

lemma ex_binade: "0 < (x::real) \<Longrightarrow> \<exists>e. 2 powi e \<le> x \<and> x < 2 powi (e + 1)"
proof -
  assume x: "0 < x"
  define e :: int where "e = \<lfloor>log 2 x\<rfloor>"
  from x have "2 powr of_int e \<le> x \<and> x < 2 powr of_int (e + 1)"
    using floor_log_eq_powr_iff[of x 2 e] by (simp add: e_def)
  then show ?thesis by (auto simp add: powr_real_of_int' simp del: of_int_add)
qed

lemma binade_eq:
  assumes "2 powi e \<le> \<bar>x\<bar>" "\<bar>x\<bar> < 2 powi (e + 1)" "- 1022 \<le> e" "e \<le> 1075"
  shows "binade x = e"
proof -
  from assms have "binade_fuel 1075 \<bar>x\<bar> = e" by (intro binade_fuel_exact) simp_all
  with assms(3) show ?thesis by (simp add: binade_def)
qed

lemma binade_le:
  assumes "\<bar>x\<bar> < 2 powi (e + 1)" "- 1022 \<le> e"
  shows "binade x \<le> e"
proof (cases "\<bar>x\<bar> < 2 powi (- 1075)")
  case True
  then have "binade_fuel 1075 \<bar>x\<bar> = - 1075"
    using binade_fuel_small[of "\<bar>x\<bar>" 1075] by simp
  with assms(2) show ?thesis by (simp add: binade_def)
next
  case False
  then have "0 < \<bar>x\<bar>" using two_powi_pos[of "- 1075"] by linarith
  from ex_binade[OF this] obtain d where d: "2 powi d \<le> \<bar>x\<bar>" "\<bar>x\<bar> < 2 powi (d + 1)" by blast
  from d(1) assms(1) have "(2::real) powi d < 2 powi (e + 1)" by simp
  then have de: "d \<le> e" by (simp add: two_powi_less_iff)
  from d(2) False have "(2::real) powi (- 1075) < 2 powi (d + 1)" by simp
  then have "- 1075 < d + 1" by (simp only: two_powi_less_iff)
  then have "- 1075 \<le> d" by linarith
  show ?thesis
  proof (cases "d \<le> 1075")
    case True
    with \<open>- 1075 \<le> d\<close> d have "binade_fuel 1075 \<bar>x\<bar> = d"
      by (intro binade_fuel_exact) (simp_all add: abs_le_iff)
    with de assms(2) show ?thesis by (simp add: binade_def)
  next
    case False
    with de assms(2) binade_fuel_upper[of 1075 "\<bar>x\<bar>"] show ?thesis
      by (simp add: binade_def)
  qed
qed

lemma fl_zero [simp]: "fl 0 = 0"
  by (simp add: fl_def py_round_def)

lemma fl_error: "\<bar>fl x - x\<bar> \<le> ulp x / 2"
proof -
  have u: "0 < ulp x" by (simp add: ulp_def)
  have "fl x - x = (of_int (py_round (x / ulp x)) - x / ulp x) * ulp x"
    using u by (simp add: fl_def field_simps)
  then have "\<bar>fl x - x\<bar> = \<bar>of_int (py_round (x / ulp x)) - x / ulp x\<bar> * ulp x"
    using u by (simp add: abs_mult)
  also have "\<dots> \<le> 1 / 2 * ulp x"
    using u py_round_error[of "x / ulp x"] by (intro mult_right_mono) simp_all
  finally show ?thesis by simp
qed

lemma ulp_le:
  assumes "\<bar>x\<bar> < 2 powi (e + 1)" "- 1022 \<le> e"
  shows "ulp x \<le> 2 powi (e - 52)"
  unfolding ulp_def using binade_le[OF assms] by (intro power_int_increasing) simp_all

lemma fl_le_int:
  assumes "x \<le> of_int k" "binade x \<le> 52"
  shows "fl x \<le> of_int k"
proof -
  define n where "n = nat (52 - binade x)"
  have u: "ulp x = 1 / 2 ^ n"
    using assms(2) by (simp add: ulp_def n_def power_int_def inverse_eq_divide power_one_over)
  have "x / ulp x \<le> of_int (k * 2 ^ n)" using assms(1) by (simp add: u)
  then have "py_round (x / ulp x) \<le> k * 2 ^ n" by (rule py_round_le)
  then have "(of_int (py_round (x / ulp x)) :: real) \<le> of_int (k * 2 ^ n)" by (simp only: of_int_le_iff)
  then show ?thesis by (simp add: fl_def u field_simps)
qed

lemma fl_ge_int:
  assumes "of_int k \<le> x" "binade x \<le> 52"
  shows "of_int k \<le> fl x"
proof -
  define n where "n = nat (52 - binade x)"
  have u: "ulp x = 1 / 2 ^ n"
    using assms(2) by (simp add: ulp_def n_def power_int_def inverse_eq_divide power_one_over)
  have "of_int (k * 2 ^ n) \<le> x / ulp x" using assms(1) by (simp add: u)
  then have "k * 2 ^ n \<le> py_round (x / ulp x)" by (rule py_round_ge)
  then have "(of_int (k * 2 ^ n) :: real) \<le> of_int (py_round (x / ulp x))" by (simp only: of_int_le_iff)
  then show ?thesis by (simp add: fl_def u field_simps)
qed

lemma binade_fuel_numeral:
  "binade_fuel (numeral k) x =
     (if 2 \<le> x then binade_fuel (pred_numeral k) (x / 2) + 1
      else if x < 1 then binade_fuel (pred_numeral k) (2 * x) - 1
      else 0)"
  by (simp add: numeral_eq_Suc)

lemma ulp_eval:
  "ulp x = (if binade x \<le> 52 then 1 / 2 ^ nat (52 - binade x) else 2 ^ nat (binade x - 52))"
  by (simp add: ulp_def power_int_def inverse_eq_divide power_one_over)

lemmas fl_eval = fl_def ulp_eval binade_def binade_fuel_numeral py_round_def Let_def

subsection \<open>The leg driver\<close>

text \<open>
  The section ``Calculate drivable chunk'' of the loop body of \<^verbatim>\<open>_drive_leg\<close>: the
  value of \<^verbatim>\<open>max_drive\<close> when the section ``Drive'' is reached.
\<close>

definition drivable_chunk :: "DriverState \<Rightarrow> real \<Rightarrow> int \<Rightarrow> int" where
  "drivable_chunk state remaining_miles remaining_minutes =
     (let cycle_remaining = max 0 (CYCLE_LIMIT - cycle_minutes state);
          window_remaining = max 0 (WINDOW_LIMIT - on_duty_minutes state);
          drive_remaining = max 0 (DRIVE_LIMIT - drive_minutes state);
          max_drive =
            min remaining_minutes
             (min drive_remaining
               (min window_remaining
                 (min cycle_remaining (BREAK_TRIGGER - cumulative_drive state))));
          speed = (if 0 < remaining_minutes
                   then fmul (fdiv remaining_miles (float_of_int remaining_minutes)) 60
                   else of_int AVG_SPEED_MPH);
          miles_until_fuel = fsub (of_int FUEL_INTERVAL_MILES) (miles_since_fuel state);
          minutes_until_fuel =
            (if 0 < speed then py_int (fmul (fdiv miles_until_fuel (max speed 1)) 60)
             else max_drive);
          max_drive = min max_drive (max 1 minutes_until_fuel)
      in if max_drive \<le> 0 then 1 else max_drive)"

text \<open>The section ``Drive'': one \<^verbatim>\<open>DRIVING\<close> event and the counter updates.\<close>

definition drive_chunk :: "DriverState \<Rightarrow> string \<Rightarrow> int \<Rightarrow> real \<Rightarrow> DriverState" where
  "drive_chunk state label max_drive chunk_miles =
     state\<lparr>timeline := timeline state @
              [\<lparr>ev_start = global_minute state,
                ev_end = global_minute state + max_drive,
                ev_status = DRIVING,
                ev_label = label,
                ev_miles = chunk_miles\<rparr>],
           global_minute := global_minute state + max_drive,
           drive_minutes := drive_minutes state + max_drive,
           on_duty_minutes := on_duty_minutes state + max_drive,
           cumulative_drive := cumulative_drive state + max_drive,
           cycle_minutes := cycle_minutes state + max_drive,
           miles_since_fuel := fadd (miles_since_fuel state) chunk_miles\<rparr>"

definition drive_leg_body ::
  "DriverState \<Rightarrow> real \<Rightarrow> int \<Rightarrow> string \<Rightarrow> (DriverState \<times> real \<times> int) option" where
  "drive_leg_body state remaining_miles remaining_minutes label =
     (let cycle_remaining = max 0 (CYCLE_LIMIT - cycle_minutes state) in
      if cycle_remaining \<le> 0 then None
      else
        let window_remaining = max 0 (WINDOW_LIMIT - on_duty_minutes state);
            drive_remaining = max 0 (DRIVE_LIMIT - drive_minutes state)
        in
        if window_remaining \<le> 0 \<or> drive_remaining \<le> 0 then
          Some (insert_reset state, remaining_miles, remaining_minutes)
        else if BREAK_TRIGGER \<le> cumulative_drive state then
          Some (insert_break state label, remaining_miles, remaining_minutes)
        else if of_int FUEL_INTERVAL_MILES \<le> miles_since_fuel state then
          Some (insert_fuel_stop state label, remaining_miles, remaining_minutes)
        else
          let max_drive = drivable_chunk state remaining_miles remaining_minutes;
              chunk_miles =
                fmul (int_truediv max_drive (max remaining_minutes 1)) remaining_miles
          in Some (drive_chunk state label max_drive chunk_miles,
                   fsub remaining_miles chunk_miles,
                   remaining_minutes - max_drive))"

definition cycle_exhausted :: "DriverState \<Rightarrow> bool" where
  "cycle_exhausted state \<longleftrightarrow> max 0 (CYCLE_LIMIT - cycle_minutes state) \<le> 0"

definition reset_due :: "DriverState \<Rightarrow> bool" where
  "reset_due state \<longleftrightarrow>
     max 0 (WINDOW_LIMIT - on_duty_minutes state) \<le> 0 \<or>
     max 0 (DRIVE_LIMIT - drive_minutes state) \<le> 0"

definition break_due :: "DriverState \<Rightarrow> bool" where
  "break_due state \<longleftrightarrow> BREAK_TRIGGER \<le> cumulative_drive state"

definition fuel_due :: "DriverState \<Rightarrow> bool" where
  "fuel_due state \<longleftrightarrow> of_int FUEL_INTERVAL_MILES \<le> miles_since_fuel state"

lemma cycle_exhausted_iff: "cycle_exhausted s \<longleftrightarrow> 4200 \<le> cycle_minutes s"
  by (simp add: cycle_exhausted_def CYCLE_LIMIT_def)

lemma reset_due_iff: "reset_due s \<longleftrightarrow> 840 \<le> on_duty_minutes s \<or> 660 \<le> drive_minutes s"
  by (simp add: reset_due_def WINDOW_LIMIT_def DRIVE_LIMIT_def)

lemma break_due_iff: "break_due s \<longleftrightarrow> 480 \<le> cumulative_drive s"
  by (simp add: break_due_def BREAK_TRIGGER_def)

lemma fuel_due_iff: "fuel_due s \<longleftrightarrow> 1000 \<le> miles_since_fuel s"
  by (simp add: fuel_due_def FUEL_INTERVAL_MILES_def)

lemma drive_leg_body_eq:
  "drive_leg_body s rm rmin l =
     (if cycle_exhausted s then None
      else if reset_due s then Some (insert_reset s, rm, rmin)
      else if break_due s then Some (insert_break s l, rm, rmin)
      else if fuel_due s then Some (insert_fuel_stop s l, rm, rmin)
      else Some (drive_chunk s l (drivable_chunk s rm rmin)
                   (fmul (int_truediv (drivable_chunk s rm rmin) (max rmin 1)) rm),
                 fsub rm (fmul (int_truediv (drivable_chunk s rm rmin) (max rmin 1)) rm),
                 rmin - drivable_chunk s rm rmin))"
  unfolding drive_leg_body_def cycle_exhausted_def reset_due_def break_due_def fuel_due_def Let_def
  by simp

lemma min_max_one: "(1::int) \<le> x \<Longrightarrow> 1 \<le> min x (max 1 y) \<and> min x (max 1 y) \<le> x"
  by simp

lemma drivable_chunk_bounds:
  assumes "0 < rmin" "\<not> cycle_exhausted s" "\<not> reset_due s" "\<not> break_due s"
  shows "1 \<le> drivable_chunk s rm rmin"
    and "drivable_chunk s rm rmin \<le> rmin"
    and "drivable_chunk s rm rmin \<le> 660 - drive_minutes s"
    and "drivable_chunk s rm rmin \<le> 840 - on_duty_minutes s"
    and "drivable_chunk s rm rmin \<le> 4200 - cycle_minutes s"
    and "drivable_chunk s rm rmin \<le> 480 - cumulative_drive s"
proof -
  define x where "x = min rmin (min (max 0 (DRIVE_LIMIT - drive_minutes s))
      (min (max 0 (WINDOW_LIMIT - on_duty_minutes s))
        (min (max 0 (CYCLE_LIMIT - cycle_minutes s)) (BREAK_TRIGGER - cumulative_drive s))))"
  have x1: "1 \<le> x" and x2: "x \<le> rmin" and x3: "x \<le> 660 - drive_minutes s"
    and x4: "x \<le> 840 - on_duty_minutes s" and x5: "x \<le> 4200 - cycle_minutes s"
    and x6: "x \<le> 480 - cumulative_drive s"
    using assms
    by (simp_all add: x_def cycle_exhausted_iff reset_due_iff break_due_iff hos_constants)
  obtain y where d: "drivable_chunk s rm rmin = (if min x (max 1 y) \<le> 0 then 1 else min x (max 1 y))"
    unfolding drivable_chunk_def Let_def x_def by blast
  from min_max_one[OF x1, of y] have "1 \<le> min x (max 1 y)" "min x (max 1 y) \<le> x" by simp_all
  with d have "1 \<le> drivable_chunk s rm rmin" "drivable_chunk s rm rmin \<le> x" by simp_all
  with x2 x3 x4 x5 x6
  show "1 \<le> drivable_chunk s rm rmin"
    and "drivable_chunk s rm rmin \<le> rmin"
    and "drivable_chunk s rm rmin \<le> 660 - drive_minutes s"
    and "drivable_chunk s rm rmin \<le> 840 - on_duty_minutes s"
    and "drivable_chunk s rm rmin \<le> 4200 - cycle_minutes s"
    and "drivable_chunk s rm rmin \<le> 480 - cumulative_drive s"
    by linarith+
qed

text \<open>
  The stops that are due in a state, weighted so that every \<^verbatim>\<open>continue\<close> pass of the
  loop lowers the sum: a reset clears the first and the third summand, a break the
  third (and may raise the first), a fuel stop the second (and may raise the first).
\<close>

definition pending :: "DriverState \<Rightarrow> nat" where
  "pending state =
     (if reset_due state then 1 else 0)
     + (if fuel_due state then 2 else 0)
     + (if break_due state then 4 else 0)"

lemma pending_insert_reset: "reset_due s \<Longrightarrow> pending (insert_reset s) < pending s"
  by (simp add: pending_def reset_due_iff break_due_iff fuel_due_iff insert_reset_def)

lemma pending_insert_break:
  "\<not> reset_due s \<Longrightarrow> break_due s \<Longrightarrow> pending (insert_break s l) < pending s"
  by (simp add: pending_def reset_due_iff break_due_iff fuel_due_iff insert_break_def)

lemma pending_insert_fuel_stop:
  "\<not> reset_due s \<Longrightarrow> \<not> break_due s \<Longrightarrow> fuel_due s
     \<Longrightarrow> pending (insert_fuel_stop s l) < pending s"
  by (simp add: pending_def reset_due_iff break_due_iff fuel_due_iff insert_fuel_stop_def)

lemma drive_leg_body_decreases:
  assumes "0 < rmin"
    and "drive_leg_body s rm rmin l = Some (s', rm', rmin')"
  shows "0 \<le> rmin' \<and> (rmin' < rmin \<or> rmin' = rmin \<and> pending s' < pending s)"
proof -
  from assms(2) have ne: "\<not> cycle_exhausted s"
    by (auto simp: drive_leg_body_eq)
  consider (reset) "reset_due s"
    | (break) "\<not> reset_due s" "break_due s"
    | (fuel) "\<not> reset_due s" "\<not> break_due s" "fuel_due s"
    | (drive) "\<not> reset_due s" "\<not> break_due s" "\<not> fuel_due s"
    by blast
  then show ?thesis
  proof cases
    case reset
    with assms ne pending_insert_reset[OF reset] show ?thesis
      by (auto simp: drive_leg_body_eq)
  next
    case break
    with assms ne pending_insert_break[OF break] show ?thesis
      by (auto simp: drive_leg_body_eq)
  next
    case fuel
    with assms ne pending_insert_fuel_stop[OF fuel] show ?thesis
      by (auto simp: drive_leg_body_eq)
  next
    case drive
    from drivable_chunk_bounds(1,2)[OF assms(1) ne drive(1,2), of rm]
    have "1 \<le> drivable_chunk s rm rmin" "drivable_chunk s rm rmin \<le> rmin" .
    moreover from assms(2) ne drive have "rmin' = rmin - drivable_chunk s rm rmin"
      by (simp add: drive_leg_body_eq)
    ultimately show ?thesis by simp
  qed
qed

text \<open>
  \<^verbatim>\<open>_drive_leg(state, miles, minutes, label)\<close>: the loop, with \<^verbatim>\<open>remaining_miles\<close> and
  \<^verbatim>\<open>remaining_minutes\<close> initialised from \<^verbatim>\<open>miles\<close> and \<^verbatim>\<open>minutes\<close>.
\<close>

function drive_leg :: "DriverState \<Rightarrow> real \<Rightarrow> int \<Rightarrow> string \<Rightarrow> DriverState" where
  "drive_leg state remaining_miles remaining_minutes label =
     (if 0 < remaining_minutes then
        (case drive_leg_body state remaining_miles remaining_minutes label of
           None \<Rightarrow> state
         | Some (state', miles', minutes') \<Rightarrow> drive_leg state' miles' minutes' label)
      else state)"
  by pat_completeness auto
termination
proof (relation "measures [\<lambda>(state, miles, minutes, label). nat minutes,
                           \<lambda>(state, miles, minutes, label). pending state]")
  fix state :: DriverState and remaining_miles :: real and remaining_minutes :: int
    and label :: string and x2 state' y miles' minutes'
  assume "0 < remaining_minutes"
    and "drive_leg_body state remaining_miles remaining_minutes label = Some x2"
    and "(state', y) = x2" and "(miles', minutes') = y"
  then have "0 < remaining_minutes"
    and "drive_leg_body state remaining_miles remaining_minutes label
               = Some (state', miles', minutes')" by auto
  from drive_leg_body_decreases[OF this]
  show "((state', miles', minutes', label), state, remaining_miles, remaining_minutes, label)
          \<in> measures [\<lambda>(state, miles, minutes, label). nat minutes,
                        \<lambda>(state, miles, minutes, label). pending state]"
    by auto
qed simp

declare drive_leg.simps [simp del]

text \<open>
  The same loop with a bound on the number of passes: \<open>None\<close> when the bound is
  reached before the loop has ended.
\<close>

fun drive_leg_fuel :: "nat \<Rightarrow> DriverState \<Rightarrow> real \<Rightarrow> int \<Rightarrow> string \<Rightarrow> DriverState option" where
  "drive_leg_fuel 0 state remaining_miles remaining_minutes label = None"
| "drive_leg_fuel (Suc n) state remaining_miles remaining_minutes label =
     (if 0 < remaining_minutes then
        (case drive_leg_body state remaining_miles remaining_minutes label of
           None \<Rightarrow> Some state
         | Some (state', miles', minutes') \<Rightarrow> drive_leg_fuel n state' miles' minutes' label)
      else Some state)"

subsection \<open>Day sheets\<close>

text \<open>
  One pass of the loop \<^verbatim>\<open>for seg in segments[1:]\<close> of \<^verbatim>\<open>_merge_segments\<close>; a string
  is true when it is not empty.
\<close>

definition merge_step :: "Segment list \<Rightarrow> Segment \<Rightarrow> Segment list" where
  "merge_step merged seg =
     (if seg_status seg = seg_status (last merged) \<and>
         start_minute seg = end_minute (last merged)
      then butlast merged @
             [(last merged)\<lparr>end_minute := end_minute seg,
                            location_label :=
                              (if location_label seg \<noteq> [] then location_label seg
                               else location_label (last merged))\<rparr>]
      else merged @ [seg])"

definition merge_segments :: "Segment list \<Rightarrow> Segment list" where
  "merge_segments segs =
     (case segs of [] \<Rightarrow> [] | s # rest \<Rightarrow> foldl merge_step [s] rest)"

text \<open>
  One pass of the loop \<^verbatim>\<open>for evt in timeline\<close> of \<^verbatim>\<open>_build_daily_sheets\<close>, on the
  pair of \<^verbatim>\<open>segments\<close> and \<^verbatim>\<open>day_miles\<close>.
\<close>

definition day_event_step ::
  "int \<Rightarrow> int \<Rightarrow> Segment list \<times> real \<Rightarrow> TimelineEvent \<Rightarrow> Segment list \<times> real" where
  "day_event_step day_start day_end acc evt =
     (let (segs, day_miles) = acc in
      if ev_end evt \<le> day_start \<or> day_end \<le> ev_start evt then (segs, day_miles)
      else
        let seg_start = max (ev_start evt) day_start - day_start;
            seg_end = min (ev_end evt) day_end - day_start
        in
        if seg_end \<le> seg_start then (segs, day_miles)
        else
          let evt_duration = ev_end evt - ev_start evt;
              day_miles' =
                (if 0 < evt_duration \<and> 0 < ev_miles evt
                 then fadd day_miles
                        (fmul (ev_miles evt) (int_truediv (seg_end - seg_start) evt_duration))
                 else day_miles)
          in (segs @ [\<lparr>start_minute = seg_start,
                        end_minute = seg_end,
                        seg_status = ev_status evt,
                        location_label = ev_label evt\<rparr>],
              day_miles'))"

text \<open>The body of the loop \<^verbatim>\<open>for day_idx in range(num_days)\<close>.\<close>

definition build_day_sheet :: "TimelineEvent list \<Rightarrow> date \<Rightarrow> int \<Rightarrow> DaySheet" where
  "build_day_sheet events first_date day_idx =
     (let day_start = day_idx * MINUTES_IN_DAY;
          day_end = day_start + MINUTES_IN_DAY;
          current_date = first_date + day_idx;
          (segs, day_miles) = foldl (day_event_step day_start day_end) ([], 0) events;
          merged = merge_segments segs
      in \<lparr>sheet_date = current_date,
          sheet_segments = merged,
          sheet_total_miles = py_round1 day_miles\<rparr>)"

text \<open>
  \<^verbatim>\<open>_build_daily_sheets(timeline, start_date)\<close>. \<^verbatim>\<open>math.ceil\<close> of the true quotient;
  \<^verbatim>\<open>range(num_days)\<close> is empty when \<^verbatim>\<open>num_days\<close> is not positive.
\<close>

definition build_daily_sheets :: "TimelineEvent list \<Rightarrow> date \<Rightarrow> DaySheet list" where
  "build_daily_sheets events first_date =
     (if events = [] then []
      else
        let total_minutes = ev_end (last events);
            num_days = \<lceil>int_truediv total_minutes MINUTES_IN_DAY\<rceil>
        in map (build_day_sheet events first_date) [0..num_days - 1])"

subsection \<open>The public function\<close>

text \<open>\<^verbatim>\<open>DriverState(cycle_minutes=int(cycle_used_hours * 60))\<close>.\<close>

definition initial_state :: "PlanArgs \<Rightarrow> DriverState" where
  "initial_state args =
     \<lparr>global_minute = 0, drive_minutes = 0, on_duty_minutes = 0, cumulative_drive = 0,
      cycle_minutes = py_int (fmul (cycle_used_hours args) 60),
      miles_since_fuel = 0, timeline = [], stops = []\<rparr>"

text \<open>
  The miles and minutes of the two legs: the overrides of a leg when both are given,
  else the 30/70 split of the totals (the second leg is what the first leaves).
\<close>

definition effective_legs :: "PlanArgs \<Rightarrow> (real \<times> int) \<times> (real \<times> int)" where
  "effective_legs args =
     (let (l1_miles, l1_minutes) =
            (case (leg1_miles args, leg1_minutes args) of
               (Some m, Some t) \<Rightarrow> (m, t)
             | _ \<Rightarrow>
                (let leg1_fraction = fl (3 / 10)
                 in (fmul (total_miles args) leg1_fraction,
                     py_int (fmul (float_of_int (total_drive_minutes args)) leg1_fraction))));
          (l2_miles, l2_minutes) =
            (case (leg2_miles args, leg2_minutes args) of
               (Some m, Some t) \<Rightarrow> (m, t)
             | _ \<Rightarrow> (fsub (total_miles args) l1_miles, total_drive_minutes args - l1_minutes))
      in ((l1_miles, l1_minutes), (l2_miles, l2_minutes)))"

text \<open>``Fill remainder of last day with Off Duty''.\<close>

definition fill_last_day :: "DriverState \<Rightarrow> DriverState" where
  "fill_last_day state =
     (let day_minute = global_minute state mod MINUTES_IN_DAY in
      if 0 < day_minute then
        (let remaining = MINUTES_IN_DAY - day_minute
         in state\<lparr>timeline := timeline state @
                     [\<lparr>ev_start = global_minute state,
                       ev_end = global_minute state + remaining,
                       ev_status = OFF_DUTY,
                       ev_label = ''Off Duty'',
                       ev_miles = 0\<rparr>],
                  global_minute := global_minute state + remaining\<rparr>)
      else state)"

text \<open>
  The rest of \<^verbatim>\<open>compute_plan\<close> after the dropoff: the fill of the last day, the
  completion status, the planned fuel stops, the day sheets and the result.
\<close>

definition finish_plan :: "date \<Rightarrow> PlanArgs \<Rightarrow> DriverState \<Rightarrow> Plan" where
  "finish_plan first_date args state0 =
     (let state = fill_last_day state0;
          actual_driven_minutes =
            sum_list (map (\<lambda>e. ev_end e - ev_start e)
                        (filter (\<lambda>e. ev_status e = DRIVING) (timeline state)));
          remaining_drive = max 0 (total_drive_minutes args - actual_driven_minutes);
          completed = (remaining_drive \<le> 0);
          num_fuel_needed =
            max 0 (py_int (fdiv (total_miles args) (of_int FUEL_INTERVAL_MILES)));
          actual_fuel_stops = int (length (filter (\<lambda>s. stop_kind s = FUEL) (stops state)));
          planned = max num_fuel_needed actual_fuel_stops;
          sheets = build_daily_sheets (timeline state) first_date
      in \<lparr>plan_timeline = timeline state,
          plan_stops = stops state,
          daily_sheets = sheets,
          trip_completed = completed,
          remaining_drive_minutes = remaining_drive,
          planned_fuel_stops = planned\<rparr>)"

text \<open>
  \<^verbatim>\<open>compute_plan\<close>. The first argument is the calendar's current day, which the
  function reads (\<^verbatim>\<open>date.today()\<close>) when \<^verbatim>\<open>start_date\<close> is \<^verbatim>\<open>None\<close>.
\<close>

definition compute_plan :: "date \<Rightarrow> PlanArgs \<Rightarrow> Plan" where
  "compute_plan today args =
     (let first_date = (case start_date args of None \<Rightarrow> today | Some d \<Rightarrow> d);
          state = initial_state args;
          ((l1_miles, l1_minutes), (l2_miles, l2_minutes)) = effective_legs args;
          state = drive_leg state l1_miles l1_minutes ''En route to pickup'';
          state = insert_on_duty_stop state PICKUP_DURATION PICKUP (pickup_label args)
                    (fst (pickup_coords args)) (snd (pickup_coords args));
          state = drive_leg state l2_miles l2_minutes ''En route to dropoff'';
          state = insert_on_duty_stop state DROPOFF_DURATION DROPOFF (dropoff_label args)
                    (fst (dropoff_coords args)) (snd (dropoff_coords args))
      in finish_plan first_date args state)"

text \<open>\<^verbatim>\<open>compute_plan\<close> with the bound on the passes of each leg's loop.\<close>

definition compute_plan_fuel :: "nat \<Rightarrow> date \<Rightarrow> PlanArgs \<Rightarrow> Plan option" where
  "compute_plan_fuel n today args =
     (let first_date = (case start_date args of None \<Rightarrow> today | Some d \<Rightarrow> d);
          state = initial_state args;
          ((l1_miles, l1_minutes), (l2_miles, l2_minutes)) = effective_legs args
      in case drive_leg_fuel n state l1_miles l1_minutes ''En route to pickup'' of
           None \<Rightarrow> None
         | Some state \<Rightarrow>
            (let state = insert_on_duty_stop state PICKUP_DURATION PICKUP (pickup_label args)
                           (fst (pickup_coords args)) (snd (pickup_coords args))
             in case drive_leg_fuel n state l2_miles l2_minutes ''En route to dropoff'' of
                  None \<Rightarrow> None
                | Some state \<Rightarrow>
                   (let state = insert_on_duty_stop state DROPOFF_DURATION DROPOFF
                                  (dropoff_label args)
                                  (fst (dropoff_coords args)) (snd (dropoff_coords args))
                    in Some (finish_plan first_date args state))))"

section \<open>Properties of a timeline\<close>

text \<open>The sum of the lengths of the \<^verbatim>\<open>DRIVING\<close> events, as \<^verbatim>\<open>compute_plan\<close> sums them.\<close>

definition driving_minutes :: "TimelineEvent list \<Rightarrow> int" where
  "driving_minutes es =
     sum_list (map (\<lambda>e. ev_end e - ev_start e) (filter (\<lambda>e. ev_status e = DRIVING) es))"

text \<open>A 10-hour reset: a \<^verbatim>\<open>SLEEPER\<close> event of 600 minutes.\<close>

definition is_reset :: "TimelineEvent \<Rightarrow> bool" where
  "is_reset e \<longleftrightarrow> ev_status e = SLEEPER \<and> ev_end e - ev_start e = OFF_DUTY_RESET"

text \<open>A 30-minute break: an \<^verbatim>\<open>OFF_DUTY\<close> event of 30 minutes.\<close>

definition is_break :: "TimelineEvent \<Rightarrow> bool" where
  "is_break e \<longleftrightarrow> ev_status e = OFF_DUTY \<and> ev_end e - ev_start e = BREAK_DURATION"

definition is_rest :: "TimelineEvent \<Rightarrow> bool" where
  "is_rest e \<longleftrightarrow> is_break e \<or> is_reset e"

text \<open>
  The spans of a list between the elements that satisfy \<open>P\<close>: from the start to the
  first such element, between successive ones, and from the last one to the end. The
  cutting elements belong to no span.
\<close>

fun spans :: "('a \<Rightarrow> bool) \<Rightarrow> 'a list \<Rightarrow> 'a list list" where
  "spans P [] = [[]]"
| "spans P (x # xs) =
     (if P x then [] # spans P xs
      else (x # hd (spans P xs)) # tl (spans P xs))"

text \<open>The duty periods of a timeline are its spans between the 10-hour resets.\<close>

definition duty_periods :: "TimelineEvent list \<Rightarrow> TimelineEvent list list" where
  "duty_periods es = spans is_reset es"

text \<open>
  The running total of driving minutes at the end of a timeline: since its last
  10-hour reset, and since its last break or reset.
\<close>

definition period_driving :: "TimelineEvent list \<Rightarrow> int" where
  "period_driving es = driving_minutes (last (spans is_reset es))"

definition cumulative_driving :: "TimelineEvent list \<Rightarrow> int" where
  "cumulative_driving es = driving_minutes (last (spans is_rest es))"

text \<open>The timeline status prescribed for the event that covers a stop of each kind.\<close>

fun prescribed_status :: "StopKind \<Rightarrow> Status" where
  "prescribed_status BREAK_30 = OFF_DUTY"
| "prescribed_status OFF_DUTY_10 = SLEEPER"
| "prescribed_status FUEL = ON_DUTY_NOT_DRIVING"
| "prescribed_status PICKUP = ON_DUTY_NOT_DRIVING"
| "prescribed_status DROPOFF = ON_DUTY_NOT_DRIVING"

text \<open>An event overlaps the interval \<open>[t, t + d)\<close> of a stop.\<close>

definition overlaps :: "TimelineEvent \<Rightarrow> StopEvent \<Rightarrow> bool" where
  "overlaps e s \<longleftrightarrow>
     ev_start e < stop_global_minute s + stop_duration s \<and> stop_global_minute s < ev_end e"

text \<open>An event is the interval of a stop, with the status prescribed for its kind.\<close>

definition covers :: "TimelineEvent \<Rightarrow> StopEvent \<Rightarrow> bool" where
  "covers e s \<longleftrightarrow>
     ev_start e = stop_global_minute s \<and>
     ev_end e = stop_global_minute s + stop_duration s \<and>
     ev_status e = prescribed_status (stop_kind s)"

section \<open>Lemmas\<close>

subsection \<open>Spans\<close>

lemma spans_not_Nil [simp]: "spans P xs \<noteq> []"
  by (induction xs) auto

lemma spans_snoc:
  "spans P (xs @ [x]) =
     (if P x then spans P xs @ [[]]
      else butlast (spans P xs) @ [last (spans P xs) @ [x]])"
proof (induction xs)
  case Nil
  then show ?case by simp
next
  case (Cons a xs)
  obtain p ps where ps: "spans P xs = p # ps"
    by (cases "spans P xs") auto
  show ?case
  proof (cases "P x")
    case True
    with Cons ps show ?thesis by simp
  next
    case False
    with Cons ps show ?thesis
      by (cases ps) (auto simp: butlast_append)
  qed
qed

lemma last_spans_snoc:
  "last (spans P (xs @ [x])) = (if P x then [] else last (spans P xs) @ [x])"
  by (simp add: spans_snoc)

lemma set_spans_snoc:
  "set (spans P (xs @ [x])) \<subseteq>
     insert (if P x then [] else last (spans P xs) @ [x]) (set (spans P xs))"
  using in_set_butlastD[of _ "spans P xs"] by (auto simp: spans_snoc)

lemma driving_minutes_Nil [simp]: "driving_minutes [] = 0"
  by (simp add: driving_minutes_def)

lemma driving_minutes_append [simp]:
  "driving_minutes (xs @ ys) = driving_minutes xs + driving_minutes ys"
  by (simp add: driving_minutes_def)

lemma driving_minutes_single:
  "driving_minutes [e] = (if ev_status e = DRIVING then ev_end e - ev_start e else 0)"
  by (simp add: driving_minutes_def)

lemma period_driving_snoc:
  "period_driving (es @ [e]) =
     (if is_reset e then 0
      else period_driving es + (if ev_status e = DRIVING then ev_end e - ev_start e else 0))"
  by (simp add: period_driving_def last_spans_snoc driving_minutes_single)

lemma cumulative_driving_snoc:
  "cumulative_driving (es @ [e]) =
     (if is_rest e then 0
      else cumulative_driving es + (if ev_status e = DRIVING then ev_end e - ev_start e else 0))"
  by (simp add: cumulative_driving_def last_spans_snoc driving_minutes_single)

lemma period_driving_Nil [simp]: "period_driving [] = 0"
  by (simp add: period_driving_def)

lemma cumulative_driving_Nil [simp]: "cumulative_driving [] = 0"
  by (simp add: cumulative_driving_def)

section \<open>Calls used as examples\<close>

text \<open>
  \<^verbatim>\<open>compute_plan(total_miles, total_drive_minutes, cycle_used_hours)\<close> with every other
  parameter at the default of the signature.
\<close>

definition default_args :: "real \<Rightarrow> int \<Rightarrow> real \<Rightarrow> PlanArgs" where
  "default_args miles minutes hours =
     \<lparr>total_miles = miles, total_drive_minutes = minutes, cycle_used_hours = hours,
      pickup_label = ''Pickup'', dropoff_label = ''Dropoff'',
      pickup_coords = (0, 0), dropoff_coords = (0, 0),
      start_date = None,
      leg1_miles = None, leg1_minutes = None, leg2_miles = None, leg2_minutes = None\<rparr>"

subsection \<open>What each inserter does to the state\<close>

lemma insert_reset_fields:
  "timeline (insert_reset s) = timeline s @
     [\<lparr>ev_start = global_minute s, ev_end = global_minute s + 600, ev_status = SLEEPER,
       ev_label = ''10-hour sleeper berth reset'', ev_miles = 0\<rparr>]"
  "stops (insert_reset s) = stops s @
     [\<lparr>stop_kind = OFF_DUTY_10, stop_global_minute = global_minute s, stop_duration = 600,
       stop_label = ''10-hour off-duty reset'', stop_lat = 0, stop_lng = 0\<rparr>]"
  "global_minute (insert_reset s) = global_minute s + 600"
  "drive_minutes (insert_reset s) = 0"
  "on_duty_minutes (insert_reset s) = 0"
  "cumulative_drive (insert_reset s) = 0"
  "cycle_minutes (insert_reset s) = cycle_minutes s"
  "miles_since_fuel (insert_reset s) = miles_since_fuel s"
  by (simp_all add: insert_reset_def OFF_DUTY_RESET_def)

lemma insert_break_fields:
  "timeline (insert_break s l) = timeline s @
     [\<lparr>ev_start = global_minute s, ev_end = global_minute s + 30, ev_status = OFF_DUTY,
       ev_label = ''30-min break'', ev_miles = 0\<rparr>]"
  "stops (insert_break s l) = stops s @
     [\<lparr>stop_kind = BREAK_30, stop_global_minute = global_minute s, stop_duration = 30,
       stop_label = ''30-min break '' @ EM_DASH @ '' '' @ l, stop_lat = 0, stop_lng = 0\<rparr>]"
  "global_minute (insert_break s l) = global_minute s + 30"
  "drive_minutes (insert_break s l) = drive_minutes s"
  "on_duty_minutes (insert_break s l) = on_duty_minutes s + 30"
  "cumulative_drive (insert_break s l) = 0"
  "cycle_minutes (insert_break s l) = cycle_minutes s"
  "miles_since_fuel (insert_break s l) = miles_since_fuel s"
  by (simp_all add: insert_break_def BREAK_DURATION_def)

lemma insert_fuel_stop_fields:
  "timeline (insert_fuel_stop s l) = timeline s @
     [\<lparr>ev_start = global_minute s, ev_end = global_minute s + 30,
       ev_status = ON_DUTY_NOT_DRIVING, ev_label = ''Fuel stop'', ev_miles = 0\<rparr>]"
  "stops (insert_fuel_stop s l) = stops s @
     [\<lparr>stop_kind = FUEL, stop_global_minute = global_minute s, stop_duration = 30,
       stop_label = ''Fuel stop '' @ EM_DASH @ '' '' @ l, stop_lat = 0, stop_lng = 0\<rparr>]"
  "global_minute (insert_fuel_stop s l) = global_minute s + 30"
  "drive_minutes (insert_fuel_stop s l) = drive_minutes s"
  "on_duty_minutes (insert_fuel_stop s l) = on_duty_minutes s + 30"
  "cumulative_drive (insert_fuel_stop s l) = cumulative_drive s"
  "cycle_minutes (insert_fuel_stop s l) = cycle_minutes s + 30"
  "miles_since_fuel (insert_fuel_stop s l) = 0"
  by (simp_all add: insert_fuel_stop_def FUEL_DURATION_def)

lemma drive_chunk_fields:
  "timeline (drive_chunk s l d m) = timeline s @
     [\<lparr>ev_start = global_minute s, ev_end = global_minute s + d, ev_status = DRIVING,
       ev_label = l, ev_miles = m\<rparr>]"
  "stops (drive_chunk s l d m) = stops s"
  "global_minute (drive_chunk s l d m) = global_minute s + d"
  "drive_minutes (drive_chunk s l d m) = drive_minutes s + d"
  "on_duty_minutes (drive_chunk s l d m) = on_duty_minutes s + d"
  "cumulative_drive (drive_chunk s l d m) = cumulative_drive s + d"
  "cycle_minutes (drive_chunk s l d m) = cycle_minutes s + d"
  "miles_since_fuel (drive_chunk s l d m) = fadd (miles_since_fuel s) m"
  by (simp_all add: drive_chunk_def)

text \<open>The stop proper of \<^verbatim>\<open>_insert_on_duty_stop\<close>, after its optional reset.\<close>

definition on_duty_block ::
  "DriverState \<Rightarrow> int \<Rightarrow> StopKind \<Rightarrow> string \<Rightarrow> real \<Rightarrow> real \<Rightarrow> DriverState" where
  "on_duty_block s d k l lat lng =
     s\<lparr>stops := stops s @
          [\<lparr>stop_kind = k, stop_global_minute = global_minute s, stop_duration = d,
            stop_label = l, stop_lat = lat, stop_lng = lng\<rparr>],
       timeline := timeline s @
          [\<lparr>ev_start = global_minute s, ev_end = global_minute s + d,
            ev_status = ON_DUTY_NOT_DRIVING, ev_label = l, ev_miles = 0\<rparr>],
       global_minute := global_minute s + d,
       on_duty_minutes := on_duty_minutes s + d,
       cycle_minutes := cycle_minutes s + d\<rparr>"

lemma insert_on_duty_stop_eq:
  "insert_on_duty_stop s d k l lat lng =
     on_duty_block (if WINDOW_LIMIT - on_duty_minutes s < d then insert_reset s else s)
       d k l lat lng"
  by (simp add: insert_on_duty_stop_def on_duty_block_def Let_def)

lemma on_duty_block_fields:
  "timeline (on_duty_block s d k l lat lng) = timeline s @
     [\<lparr>ev_start = global_minute s, ev_end = global_minute s + d,
       ev_status = ON_DUTY_NOT_DRIVING, ev_label = l, ev_miles = 0\<rparr>]"
  "stops (on_duty_block s d k l lat lng) = stops s @
     [\<lparr>stop_kind = k, stop_global_minute = global_minute s, stop_duration = d,
       stop_label = l, stop_lat = lat, stop_lng = lng\<rparr>]"
  "global_minute (on_duty_block s d k l lat lng) = global_minute s + d"
  "drive_minutes (on_duty_block s d k l lat lng) = drive_minutes s"
  "on_duty_minutes (on_duty_block s d k l lat lng) = on_duty_minutes s + d"
  "cumulative_drive (on_duty_block s d k l lat lng) = cumulative_drive s"
  "cycle_minutes (on_duty_block s d k l lat lng) = cycle_minutes s + d"
  "miles_since_fuel (on_duty_block s d k l lat lng) = miles_since_fuel s"
  by (simp_all add: on_duty_block_def)

lemma initial_state_fields:
  "timeline (initial_state a) = []"
  "stops (initial_state a) = []"
  "global_minute (initial_state a) = 0"
  "drive_minutes (initial_state a) = 0"
  "on_duty_minutes (initial_state a) = 0"
  "cumulative_drive (initial_state a) = 0"
  "cycle_minutes (initial_state a) = py_int (fmul (cycle_used_hours a) 60)"
  "miles_since_fuel (initial_state a) = 0"
  by (simp_all add: initial_state_def)

subsection \<open>Invariants of the loop and of the plan\<close>

text \<open>
  The passes of the loop body, as a case rule: what the body returns, and under which
  condition.
\<close>

lemma drive_leg_body_cases [consumes 2, case_names reset break fuel drive]:
  assumes "0 < rmin" and "drive_leg_body s rm rmin l = Some (s', rm', rmin')"
  obtains
    (reset) "\<not> cycle_exhausted s" "reset_due s" "s' = insert_reset s" "rm' = rm" "rmin' = rmin"
  | (break) "\<not> cycle_exhausted s" "\<not> reset_due s" "break_due s"
      "s' = insert_break s l" "rm' = rm" "rmin' = rmin"
  | (fuel) "\<not> cycle_exhausted s" "\<not> reset_due s" "\<not> break_due s" "fuel_due s"
      "s' = insert_fuel_stop s l" "rm' = rm" "rmin' = rmin"
  | (drive) d m where "\<not> cycle_exhausted s" "\<not> reset_due s" "\<not> break_due s" "\<not> fuel_due s"
      "d = drivable_chunk s rm rmin" "s' = drive_chunk s l d m" "rmin' = rmin - d"
      "1 \<le> d" "d \<le> rmin" "d \<le> 660 - drive_minutes s" "d \<le> 840 - on_duty_minutes s"
      "d \<le> 4200 - cycle_minutes s" "d \<le> 480 - cumulative_drive s"
proof -
  from assms(2) have ne: "\<not> cycle_exhausted s"
    by (auto simp: drive_leg_body_eq)
  consider (a) "reset_due s"
    | (b) "\<not> reset_due s" "break_due s"
    | (c) "\<not> reset_due s" "\<not> break_due s" "fuel_due s"
    | (d) "\<not> reset_due s" "\<not> break_due s" "\<not> fuel_due s"
    by blast
  then show thesis
  proof cases
    case a
    with assms(2) ne show thesis by (intro reset) (auto simp: drive_leg_body_eq)
  next
    case b
    with assms(2) ne show thesis by (intro break) (auto simp: drive_leg_body_eq)
  next
    case c
    with assms(2) ne show thesis by (intro fuel) (auto simp: drive_leg_body_eq)
  next
    case d
    note b = drivable_chunk_bounds[OF assms(1) ne d(1,2), of rm]
    from assms(2) ne d
    have "s' = drive_chunk s l (drivable_chunk s rm rmin)
             (fmul (int_truediv (drivable_chunk s rm rmin) (max rmin 1)) rm)"
      and "rmin' = rmin - drivable_chunk s rm rmin"
      by (auto simp: drive_leg_body_eq)
    with ne d b show thesis by (intro drive) auto
  qed
qed

text \<open>A property that every pass of the body keeps holds after the loop.\<close>

lemma drive_leg_invariant:
  assumes "P s"
    and "\<And>s rm rmin l s' rm' rmin'.
           P s \<Longrightarrow> 0 < rmin \<Longrightarrow> drive_leg_body s rm rmin l = Some (s', rm', rmin') \<Longrightarrow> P s'"
  shows "P (drive_leg s rm rmin l)"
  using assms(1)
proof (induction s rm rmin l rule: drive_leg.induct)
  case (1 state remaining_miles remaining_minutes label)
  show ?case
  proof (cases "0 < remaining_minutes")
    case False
    with "1.prems" show ?thesis by (simp add: drive_leg.simps)
  next
    case pos: True
    show ?thesis
    proof (cases "drive_leg_body state remaining_miles remaining_minutes label")
      case None
      with pos "1.prems" show ?thesis by (simp add: drive_leg.simps)
    next
      case (Some r)
      obtain s' rm' rmin' where r: "r = (s', rm', rmin')" by (cases r) auto
      from assms(2)[OF "1.prems" pos Some[unfolded r]] have "P s'" .
      from "1.IH"[OF pos Some[unfolded r] refl refl this] pos Some r
      show ?thesis by (simp add: drive_leg.simps[of state])
    qed
  qed
qed

text \<open>The state of \<^verbatim>\<open>compute_plan\<close> after the dropoff, before the last day is filled.\<close>

definition state_after_dropoff :: "PlanArgs \<Rightarrow> DriverState" where
  "state_after_dropoff args =
     (let ((l1_miles, l1_minutes), (l2_miles, l2_minutes)) = effective_legs args;
          s1 = drive_leg (initial_state args) l1_miles l1_minutes ''En route to pickup'';
          s2 = insert_on_duty_stop s1 PICKUP_DURATION PICKUP (pickup_label args)
                 (fst (pickup_coords args)) (snd (pickup_coords args));
          s3 = drive_leg s2 l2_miles l2_minutes ''En route to dropoff''
      in insert_on_duty_stop s3 DROPOFF_DURATION DROPOFF (dropoff_label args)
           (fst (dropoff_coords args)) (snd (dropoff_coords args)))"

definition first_date_of :: "date \<Rightarrow> PlanArgs \<Rightarrow> date" where
  "first_date_of today args = (case start_date args of None \<Rightarrow> today | Some d \<Rightarrow> d)"

lemma compute_plan_eq:
  "compute_plan today args =
     finish_plan (first_date_of today args) args (state_after_dropoff args)"
  by (simp add: compute_plan_def state_after_dropoff_def first_date_of_def Let_def
      split: prod.splits)

lemma finish_plan_fields:
  "plan_timeline (finish_plan d args s) = timeline (fill_last_day s)"
  "plan_stops (finish_plan d args s) = stops (fill_last_day s)"
  "daily_sheets (finish_plan d args s) = build_daily_sheets (timeline (fill_last_day s)) d"
  "remaining_drive_minutes (finish_plan d args s) =
     max 0 (total_drive_minutes args - driving_minutes (timeline (fill_last_day s)))"
  "trip_completed (finish_plan d args s) \<longleftrightarrow>
     max 0 (total_drive_minutes args - driving_minutes (timeline (fill_last_day s))) \<le> 0"
  by (simp_all add: finish_plan_def Let_def driving_minutes_def)

lemma fill_last_day_fields:
  "stops (fill_last_day s) = stops s"
  "timeline (fill_last_day s) =
     (if 0 < global_minute s mod 1440
      then timeline s @
        [\<lparr>ev_start = global_minute s,
          ev_end = global_minute s + (1440 - global_minute s mod 1440),
          ev_status = OFF_DUTY, ev_label = ''Off Duty'', ev_miles = 0\<rparr>]
      else timeline s)"
  "global_minute (fill_last_day s) =
     (if 0 < global_minute s mod 1440
      then global_minute s + (1440 - global_minute s mod 1440) else global_minute s)"
  by (simp_all add: fill_last_day_def Let_def MINUTES_IN_DAY_def)

text \<open>
  A property that the initial state has and that the body of the loop, a reset and
  a pickup or dropoff block keep holds after the dropoff.
\<close>

lemma plan_invariant:
  assumes init: "P (initial_state args)"
    and body: "\<And>s rm rmin l s' rm' rmin'.
           P s \<Longrightarrow> 0 < rmin \<Longrightarrow> drive_leg_body s rm rmin l = Some (s', rm', rmin') \<Longrightarrow> P s'"
    and reset: "\<And>s. P s \<Longrightarrow> P (insert_reset s)"
    and block: "\<And>s d k l lat lng. P s \<Longrightarrow> d = 60 \<Longrightarrow> k = PICKUP \<or> k = DROPOFF \<Longrightarrow>
           on_duty_minutes s + d \<le> 840 \<Longrightarrow> P (on_duty_block s d k l lat lng)"
  shows "P (state_after_dropoff args)"
proof -
  have stop: "P (insert_on_duty_stop s 60 k l lat lng)"
    if "P s" "k = PICKUP \<or> k = DROPOFF" for s k l lat lng
  proof (cases "WINDOW_LIMIT - on_duty_minutes s < 60")
    case True
    have "P (on_duty_block (insert_reset s) 60 k l lat lng)"
      by (rule block[OF reset[OF that(1)] refl that(2)]) (simp add: insert_reset_fields)
    with True show ?thesis by (simp add: insert_on_duty_stop_eq)
  next
    case False
    then have "on_duty_minutes s + 60 \<le> 840" by (simp add: WINDOW_LIMIT_def)
    from block[OF that(1) refl that(2) this] False show ?thesis
      by (simp add: insert_on_duty_stop_eq)
  qed
  obtain a b c d where legs: "effective_legs args = ((a, b), (c, d))"
    by (metis surj_pair)
  have 1: "P (drive_leg (initial_state args) a b ''En route to pickup'')"
    by (rule drive_leg_invariant[where P = P, OF init]) (rule body)
  have 2: "P (insert_on_duty_stop (drive_leg (initial_state args) a b ''En route to pickup'')
              60 PICKUP (pickup_label args) (fst (pickup_coords args)) (snd (pickup_coords args)))"
    by (rule stop[OF 1]) simp
  have 3: "P (drive_leg (insert_on_duty_stop
                (drive_leg (initial_state args) a b ''En route to pickup'')
              60 PICKUP (pickup_label args) (fst (pickup_coords args)) (snd (pickup_coords args)))
            c d ''En route to dropoff'')"
    by (rule drive_leg_invariant[where P = P, OF 2]) (rule body)
  show ?thesis
    unfolding state_after_dropoff_def legs Let_def prod.case PICKUP_DURATION_def
      DROPOFF_DURATION_def
    by (rule stop[OF 3]) simp
qed

subsection \<open>Contiguous timelines\<close>

text \<open>
  \<open>chain a es b\<close>: the events of \<open>es\<close> follow one another from minute \<open>a\<close> to minute
  \<open>b\<close>, each one longer than nothing.
\<close>

fun chain :: "int \<Rightarrow> TimelineEvent list \<Rightarrow> int \<Rightarrow> bool" where
  "chain a [] b \<longleftrightarrow> a = b"
| "chain a (e # es) b \<longleftrightarrow> ev_start e = a \<and> a < ev_end e \<and> chain (ev_end e) es b"

lemma chain_snoc:
  "chain a (es @ [e]) b \<longleftrightarrow> chain a es (ev_start e) \<and> ev_start e < ev_end e \<and> ev_end e = b"
  by (induction es arbitrary: a) auto

lemma chain_le: "chain a es b \<Longrightarrow> a \<le> b"
  by (induction es arbitrary: a) force+

lemma chain_positive: "chain a es b \<Longrightarrow> e \<in> set es \<Longrightarrow> ev_start e < ev_end e"
  by (induction es arbitrary: a) auto

lemma chain_first: "chain a es b \<Longrightarrow> es \<noteq> [] \<Longrightarrow> ev_start (es ! 0) = a"
  by (cases es) auto

lemma chain_last: "chain a es b \<Longrightarrow> es \<noteq> [] \<Longrightarrow> ev_end (last es) = b"
  by (induction es arbitrary: a) auto

lemma chain_adjacent:
  "chain a es b \<Longrightarrow> Suc i < length es \<Longrightarrow> ev_end (es ! i) = ev_start (es ! Suc i)"
proof (induction es arbitrary: a i)
  case Nil
  then show ?case by simp
next
  case (Cons e es)
  show ?case
  proof (cases i)
    case 0
    with Cons.prems show ?thesis by (cases es) auto
  next
    case (Suc j)
    with Cons.prems Cons.IH[of "ev_end e" j] show ?thesis by simp
  qed
qed

lemma chain_bounds:
  "chain a es b \<Longrightarrow> i < length es \<Longrightarrow> a \<le> ev_start (es ! i) \<and> ev_end (es ! i) \<le> b"
proof (induction es arbitrary: a i)
  case Nil
  then show ?case by simp
next
  case (Cons e es)
  from Cons.prems(1) have c: "chain (ev_end e) es b" and s: "ev_start e = a" "a < ev_end e"
    by simp_all
  show ?case
  proof (cases i)
    case 0
    with chain_le[OF c] s show ?thesis by simp
  next
    case (Suc j)
    with Cons.prems(2) Cons.IH[OF c, of j] s show ?thesis by simp
  qed
qed

lemma chain_ordered:
  "chain a es b \<Longrightarrow> i < j \<Longrightarrow> j < length es \<Longrightarrow> ev_end (es ! i) \<le> ev_start (es ! j)"
proof (induction es arbitrary: a i j)
  case Nil
  then show ?case by simp
next
  case (Cons e es)
  from Cons.prems(1) have c: "chain (ev_end e) es b" by simp
  obtain j' where j: "j = Suc j'" using Cons.prems(2) by (cases j) auto
  show ?case
  proof (cases i)
    case 0
    with j Cons.prems(3) chain_bounds[OF c, of j'] show ?thesis by simp
  next
    case (Suc i')
    with j Cons.prems Cons.IH[OF c, of i' j'] show ?thesis by simp
  qed
qed

subsection \<open>A property of every event, given the events before it\<close>

definition each_event ::
  "(TimelineEvent list \<Rightarrow> TimelineEvent \<Rightarrow> bool) \<Rightarrow> TimelineEvent list \<Rightarrow> bool" where
  "each_event Q es \<longleftrightarrow> (\<forall>n<length es. Q (take n es) (es ! n))"

lemma each_event_Nil [simp]: "each_event Q []"
  by (simp add: each_event_def)

lemma each_event_snoc: "each_event Q (es @ [e]) \<longleftrightarrow> each_event Q es \<and> Q es e"
proof
  assume h: "each_event Q (es @ [e])"
  have "Q (take n es) (es ! n)" if "n < length es" for n
    using h[unfolded each_event_def, rule_format, of n] that by (simp add: nth_append)
  moreover have "Q es e"
    using h[unfolded each_event_def, rule_format, of "length es"] by simp
  ultimately show "each_event Q es \<and> Q es e" by (simp add: each_event_def)
next
  assume h: "each_event Q es \<and> Q es e"
  show "each_event Q (es @ [e])"
    unfolding each_event_def
  proof (intro allI impI)
    fix n assume "n < length (es @ [e])"
    then consider "n < length es" | "n = length es" by fastforce
    then show "Q (take n (es @ [e])) ((es @ [e]) ! n)"
    proof cases
      case 1
      with h show ?thesis by (simp add: each_event_def nth_append)
    next
      case 2
      with h show ?thesis by simp
    qed
  qed
qed

lemma each_eventD: "each_event Q es \<Longrightarrow> n < length es \<Longrightarrow> Q (take n es) (es ! n)"
  by (simp add: each_event_def)

subsection \<open>The invariant of the simulation\<close>

text \<open>
  The counters of the state agree with the timeline, the timeline is contiguous up to
  the current minute, no driving event has taken a running total past its limit, and
  every stop has its event.
\<close>

definition sound :: "DriverState \<Rightarrow> bool" where
  "sound s \<longleftrightarrow>
     chain 0 (timeline s) (global_minute s) \<and>
     drive_minutes s = period_driving (timeline s) \<and>
     drive_minutes s \<le> 660 \<and>
     (\<forall>p\<in>set (duty_periods (timeline s)). driving_minutes p \<le> 660) \<and>
     each_event (\<lambda>pre e. ev_status e = DRIVING \<longrightarrow> period_driving (pre @ [e]) \<le> 660)
       (timeline s) \<and>
     cumulative_drive s = cumulative_driving (timeline s) \<and>
     cumulative_drive s \<le> 480 \<and>
     each_event (\<lambda>pre e. ev_status e = DRIVING \<longrightarrow>
                   cumulative_driving pre < 480 \<and> cumulative_driving (pre @ [e]) \<le> 480)
       (timeline s) \<and>
     (\<forall>st\<in>set (stops s).
        (\<exists>e\<in>set (timeline s). covers e st) \<and>
        stop_global_minute st + stop_duration st \<le> global_minute s)"

lemma sound_initial: "sound (initial_state args)"
  by (simp add: sound_def initial_state_fields duty_periods_def)

text \<open>One more event, with the counters updated as the event demands.\<close>

lemma sound_append:
  assumes s: "sound s"
    and tl: "timeline s' = timeline s @ [e]"
    and st: "ev_start e = global_minute s" "ev_end e = global_minute s'"
      "global_minute s < global_minute s'"
    and dm: "drive_minutes s' =
               (if is_reset e then 0
                else drive_minutes s + (if ev_status e = DRIVING then ev_end e - ev_start e else 0))"
      "drive_minutes s' \<le> 660"
    and cd: "cumulative_drive s' =
               (if is_rest e then 0
                else cumulative_drive s
                     + (if ev_status e = DRIVING then ev_end e - ev_start e else 0))"
      "cumulative_drive s' \<le> 480"
      "ev_status e = DRIVING \<Longrightarrow> cumulative_drive s < 480"
    and sp: "stops s' = stops s @ new"
      "\<And>x. x \<in> set new \<Longrightarrow> covers e x"
  shows "sound s'"
proof -
  note s' = s[unfolded sound_def]
  have pd: "period_driving (timeline s') = drive_minutes s'"
    using s' by (simp add: tl period_driving_snoc dm(1))
  have cu: "cumulative_driving (timeline s') = cumulative_drive s'"
    using s' by (simp add: tl cumulative_driving_snoc cd(1))
  have c1: "chain 0 (timeline s') (global_minute s')"
    using s' st by (simp add: tl chain_snoc)
  have c4: "\<forall>p\<in>set (duty_periods (timeline s')). driving_minutes p \<le> 660"
  proof
    fix p assume "p \<in> set (duty_periods (timeline s'))"
    with set_spans_snoc[of is_reset "timeline s" e]
    have "p = (if is_reset e then [] else last (spans is_reset (timeline s)) @ [e])
          \<or> p \<in> set (duty_periods (timeline s))"
      by (auto simp: duty_periods_def tl)
    then show "driving_minutes p \<le> 660"
    proof
      assume "p = (if is_reset e then [] else last (spans is_reset (timeline s)) @ [e])"
      then have "p = last (spans is_reset (timeline s'))"
        by (simp add: tl last_spans_snoc)
      then have "driving_minutes p = drive_minutes s'"
        using pd by (simp add: period_driving_def)
      with dm(2) show ?thesis by simp
    next
      assume "p \<in> set (duty_periods (timeline s))"
      with s' show ?thesis by blast
    qed
  qed
  have c5: "each_event (\<lambda>pre e. ev_status e = DRIVING \<longrightarrow> period_driving (pre @ [e]) \<le> 660)
              (timeline s')"
    using s' pd dm(2) by (simp add: tl each_event_snoc)
  have c8: "each_event (\<lambda>pre e. ev_status e = DRIVING \<longrightarrow>
                   cumulative_driving pre < 480 \<and> cumulative_driving (pre @ [e]) \<le> 480)
              (timeline s')"
    using s' cu cd(2,3) by (simp add: tl each_event_snoc)
  have c9: "\<forall>x\<in>set (stops s').
        (\<exists>e\<in>set (timeline s'). covers e x) \<and>
        stop_global_minute x + stop_duration x \<le> global_minute s'"
  proof
    fix x assume "x \<in> set (stops s')"
    then consider "x \<in> set (stops s)" | "x \<in> set new" by (auto simp: sp(1))
    then show "(\<exists>e\<in>set (timeline s'). covers e x) \<and>
        stop_global_minute x + stop_duration x \<le> global_minute s'"
    proof cases
      case 1
      with s' have "(\<exists>e\<in>set (timeline s). covers e x)"
        and "stop_global_minute x + stop_duration x \<le> global_minute s" by blast+
      with st(3) show ?thesis by (auto simp: tl)
    next
      case 2
      from sp(2)[OF 2] st(2) show ?thesis by (auto simp: tl covers_def)
    qed
  qed
  show ?thesis
    unfolding sound_def using c1 pd dm(2) c4 c5 cu cd(2) c8 c9 by simp
qed

lemma sound_insert_reset: "sound s \<Longrightarrow> sound (insert_reset s)"
  by (rule sound_append[where new = "[_]"], assumption, simp add: insert_reset_fields)
    (auto simp add: insert_reset_fields is_reset_def is_rest_def covers_def OFF_DUTY_RESET_def)

lemma sound_insert_break: "sound s \<Longrightarrow> sound (insert_break s l)"
  by (rule sound_append[where new = "[_]"], assumption, simp add: insert_break_fields)
    (auto simp add: insert_break_fields is_reset_def is_rest_def is_break_def covers_def
      BREAK_DURATION_def sound_def)

lemma sound_insert_fuel_stop: "sound s \<Longrightarrow> sound (insert_fuel_stop s l)"
  by (rule sound_append[where new = "[_]"], assumption, simp add: insert_fuel_stop_fields)
    (auto simp add: insert_fuel_stop_fields is_reset_def is_rest_def is_break_def covers_def
      sound_def)

lemma sound_on_duty_block:
  "sound s \<Longrightarrow> 0 < d \<Longrightarrow> k = PICKUP \<or> k = DROPOFF \<Longrightarrow> sound (on_duty_block s d k l lat lng)"
  by (rule sound_append[where new = "[_]"], assumption, simp add: on_duty_block_fields)
    (auto simp add: on_duty_block_fields is_reset_def is_rest_def is_break_def covers_def
      sound_def)

lemma sound_drive_chunk:
  "sound s \<Longrightarrow> 1 \<le> d \<Longrightarrow> d \<le> 660 - drive_minutes s \<Longrightarrow> d \<le> 480 - cumulative_drive s
     \<Longrightarrow> sound (drive_chunk s l d m)"
  by (rule sound_append[where new = "[]"], assumption, simp add: drive_chunk_fields)
    (auto simp add: drive_chunk_fields is_reset_def is_rest_def is_break_def)

lemma sound_body:
  assumes "sound s" "0 < rmin" "drive_leg_body s rm rmin l = Some (s', rm', rmin')"
  shows "sound s'"
  using assms(2,3)
proof (cases rule: drive_leg_body_cases)
  case reset
  with assms(1) show ?thesis by (simp add: sound_insert_reset)
next
  case break
  with assms(1) show ?thesis by (simp add: sound_insert_break)
next
  case fuel
  with assms(1) show ?thesis by (simp add: sound_insert_fuel_stop)
next
  case (drive d m)
  with assms(1) show ?thesis by (simp add: sound_drive_chunk)
qed

lemma sound_after_dropoff: "sound (state_after_dropoff args)"
proof (rule plan_invariant[where P = sound])
  show "sound (initial_state args)" by (rule sound_initial)
qed (auto intro: sound_body sound_insert_reset sound_on_duty_block)

subsection \<open>The timeline of the returned plan\<close>

text \<open>The minute at which the returned timeline ends.\<close>

definition plan_end :: "PlanArgs \<Rightarrow> int" where
  "plan_end args = global_minute (fill_last_day (state_after_dropoff args))"

lemma plan_timeline_eq:
  "plan_timeline (compute_plan today args) = timeline (fill_last_day (state_after_dropoff args))"
  by (simp add: compute_plan_eq finish_plan_fields)

lemma plan_stops_eq:
  "plan_stops (compute_plan today args) = stops (state_after_dropoff args)"
  by (simp add: compute_plan_eq finish_plan_fields fill_last_day_fields)

lemma fill_last_day_cases:
  obtains (full) "global_minute s mod 1440 = 0" "timeline (fill_last_day s) = timeline s"
      "global_minute (fill_last_day s) = global_minute s"
  | (fill) e where "0 < global_minute s mod 1440" "timeline (fill_last_day s) = timeline s @ [e]"
      "ev_start e = global_minute s" "ev_end e = global_minute (fill_last_day s)"
      "ev_status e = OFF_DUTY" "ev_label e = ''Off Duty''" "ev_miles e = 0"
      "global_minute (fill_last_day s) = global_minute s + (1440 - global_minute s mod 1440)"
proof (cases "0 < global_minute s mod 1440")
  case True
  then show thesis
    by (intro fill[where e = "\<lparr>ev_start = global_minute s,
          ev_end = global_minute s + (1440 - global_minute s mod 1440),
          ev_status = OFF_DUTY, ev_label = ''Off Duty'', ev_miles = 0\<rparr>"])
       (simp_all add: fill_last_day_fields)
next
  case False
  moreover have "0 \<le> global_minute s mod 1440" by simp
  ultimately have "global_minute s mod 1440 = 0" by linarith
  then show thesis by (intro full) (simp_all add: fill_last_day_fields)
qed

lemma plan_end_day: "plan_end args mod 1440 = 0"
proof (cases "state_after_dropoff args" rule: fill_last_day_cases)
  case full
  then show ?thesis by (simp add: plan_end_def)
next
  case (fill e)
  have "(g + (1440 - g mod 1440)) mod 1440 = 0" for g :: int
  proof -
    have "g + (1440 - g mod 1440) = (g div 1440 + 1) * 1440"
      using div_mult_mod_eq[of g 1440] by (simp add: algebra_simps)
    then show ?thesis by (simp only: mod_mult_self2_is_0)
  qed
  with fill show ?thesis by (simp add: plan_end_def)
qed

lemma plan_chain: "chain 0 (plan_timeline (compute_plan today args)) (plan_end args)"
proof -
  have c: "chain 0 (timeline (state_after_dropoff args)) (global_minute (state_after_dropoff args))"
    using sound_after_dropoff[of args] by (simp add: sound_def)
  show ?thesis
  proof (cases "state_after_dropoff args" rule: fill_last_day_cases)
    case full
    with c show ?thesis by (simp add: plan_timeline_eq plan_end_def)
  next
    case (fill e)
    have "0 \<le> global_minute (state_after_dropoff args) mod 1440"
      and "global_minute (state_after_dropoff args) mod 1440 < 1440" by simp_all
    with c fill show ?thesis by (simp add: plan_timeline_eq plan_end_def chain_snoc)
  qed
qed

lemma state_after_dropoff_stops_not_Nil:
  "stops (state_after_dropoff args) \<noteq> []" "timeline (state_after_dropoff args) \<noteq> []"
  by (simp_all add: state_after_dropoff_def Let_def insert_on_duty_stop_eq
      on_duty_block_fields split: prod.splits)

lemma plan_timeline_not_Nil: "plan_timeline (compute_plan today args) \<noteq> []"
  by (cases "state_after_dropoff args" rule: fill_last_day_cases)
    (simp_all add: plan_timeline_eq state_after_dropoff_stops_not_Nil)

lemma plan_end_positive: "0 < plan_end args"
proof -
  let ?tl = "plan_timeline (compute_plan 0 args)"
  from plan_timeline_not_Nil[of 0 args] obtain e es where tl: "?tl = e # es"
    by (cases ?tl) auto
  from plan_chain[of 0 args] have "0 < ev_end e" "chain (ev_end e) es (plan_end args)"
    by (simp_all add: tl)
  with chain_le[of "ev_end e" es "plan_end args"] show ?thesis by simp
qed

lemma plan_periods:
  "\<forall>p\<in>set (duty_periods (plan_timeline (compute_plan today args))). driving_minutes p \<le> 660"
proof -
  let ?s = "state_after_dropoff args"
  have a: "\<forall>p\<in>set (duty_periods (timeline ?s)). driving_minutes p \<le> 660"
    using sound_after_dropoff[of args] by (simp add: sound_def)
  show ?thesis
  proof (cases ?s rule: fill_last_day_cases)
    case full
    with a show ?thesis by (simp add: plan_timeline_eq)
  next
    case (fill e)
    have nr: "\<not> is_reset e" using fill by (simp add: is_reset_def)
    show ?thesis
    proof
      fix p assume "p \<in> set (duty_periods (plan_timeline (compute_plan today args)))"
      with set_spans_snoc[of is_reset "timeline ?s" e] nr fill(2)
      have "p = last (spans is_reset (timeline ?s)) @ [e] \<or> p \<in> set (duty_periods (timeline ?s))"
        by (auto simp: duty_periods_def plan_timeline_eq)
      then show "driving_minutes p \<le> 660"
      proof
        assume p: "p = last (spans is_reset (timeline ?s)) @ [e]"
        have "last (spans is_reset (timeline ?s)) \<in> set (duty_periods (timeline ?s))"
          by (simp add: duty_periods_def)
        with a have "driving_minutes (last (spans is_reset (timeline ?s))) \<le> 660" by blast
        with p fill(5) show ?thesis by (simp add: driving_minutes_single)
      next
        assume "p \<in> set (duty_periods (timeline ?s))"
        with a show ?thesis by blast
      qed
    qed
  qed
qed

lemma plan_each_event:
  assumes "each_event Q (timeline (state_after_dropoff args))"
    and "\<And>pre e. ev_status e = OFF_DUTY \<Longrightarrow> Q pre e"
  shows "each_event Q (plan_timeline (compute_plan today args))"
proof (cases "state_after_dropoff args" rule: fill_last_day_cases)
  case full
  with assms(1) show ?thesis by (simp add: plan_timeline_eq)
next
  case (fill e)
  with assms show ?thesis by (simp add: plan_timeline_eq each_event_snoc)
qed

lemma plan_period_events:
  "each_event (\<lambda>pre e. ev_status e = DRIVING \<longrightarrow> period_driving (pre @ [e]) \<le> 660)
     (plan_timeline (compute_plan today args))"
  by (rule plan_each_event) (use sound_after_dropoff[of args] in \<open>simp_all add: sound_def\<close>)

lemma plan_cumulative_events:
  "each_event (\<lambda>pre e. ev_status e = DRIVING \<longrightarrow>
       cumulative_driving pre < 480 \<and> cumulative_driving (pre @ [e]) \<le> 480)
     (plan_timeline (compute_plan today args))"
  by (rule plan_each_event) (use sound_after_dropoff[of args] in \<open>simp_all add: sound_def\<close>)

lemma plan_stops_covered:
  assumes "st \<in> set (plan_stops (compute_plan today args))"
  shows "\<exists>e\<in>set (plan_timeline (compute_plan today args)). covers e st"
    and "stop_global_minute st + stop_duration st \<le> global_minute (state_after_dropoff args)"
proof -
  let ?s = "state_after_dropoff args"
  from assms sound_after_dropoff[of args]
  have a: "\<exists>e\<in>set (timeline ?s). covers e st"
    and b: "stop_global_minute st + stop_duration st \<le> global_minute ?s"
    by (auto simp: sound_def plan_stops_eq)
  show "stop_global_minute st + stop_duration st \<le> global_minute ?s" by (rule b)
  show "\<exists>e\<in>set (plan_timeline (compute_plan today args)). covers e st"
    using a by (cases ?s rule: fill_last_day_cases) (auto simp: plan_timeline_eq)
qed

section \<open>A worked call\<close>

text \<open>
  Rewrite rules that evaluate the floating point operations on literals, and the
  loop of \<^verbatim>\<open>_drive_leg\<close> on a given state.
\<close>

lemmas fl_lit =
  fl_def[of "numeral a" for a] fl_def[of "numeral a / numeral b" for a b]
  fl_def[of 1] fl_def[of "1 / numeral b" for b]
  fl_def[of "- numeral a" for a] fl_def[of "- (numeral a / numeral b)" for a b]
  fl_def[of "- 1"] fl_def[of "- (1 / numeral b)" for b]
  ulp_eval[of "numeral a" for a] ulp_eval[of "numeral a / numeral b" for a b]
  ulp_eval[of 1] ulp_eval[of "1 / numeral b" for b]
  ulp_eval[of "- numeral a" for a] ulp_eval[of "- (numeral a / numeral b)" for a b]
  ulp_eval[of "- 1"] ulp_eval[of "- (1 / numeral b)" for b]
  binade_def[of "numeral a" for a] binade_def[of "numeral a / numeral b" for a b]
  binade_def[of 1] binade_def[of "1 / numeral b" for b]
  binade_def[of "- numeral a" for a] binade_def[of "- (numeral a / numeral b)" for a b]
  binade_def[of "- 1"] binade_def[of "- (1 / numeral b)" for b]
  binade_fuel_numeral[of k "numeral a" for k a]
  binade_fuel_numeral[of k "numeral a / numeral b" for k a b]
  binade_fuel_numeral[of k 1 for k] binade_fuel_numeral[of k "1 / numeral b" for k b]
  py_round_def[of "numeral a" for a] py_round_def[of "numeral a / numeral b" for a b]
  py_round_def[of 1] py_round_def[of "1 / numeral b" for b]
  py_round_def[of "- numeral a" for a] py_round_def[of "- (numeral a / numeral b)" for a b]
  py_round_def[of "- 1"] py_round_def[of "- (1 / numeral b)" for b]

lemmas float_eval =
  fadd_def fsub_def fmul_def fdiv_def float_of_int_def int_truediv_def fl_lit Let_def

lemmas leg_eval = drive_leg.simps drive_leg_body_eq cycle_exhausted_iff reset_due_iff
  break_due_iff fuel_due_iff insert_reset_def insert_break_def insert_fuel_stop_def
  insert_on_duty_stop_def drive_chunk_def drivable_chunk_def hos_constants py_int_def

text \<open>
  \<^verbatim>\<open>compute_plan(800, 780, 0, start_date=date(2025, 1, 1))\<close>: 800 miles in 13 hours of
  driving, with a 30-minute break and a 10-hour reset on the second leg.
\<close>

definition reset_trip :: PlanArgs where
  "reset_trip = (default_args 800 780 0)\<lparr>start_date := Some 739252\<rparr>"

lemma reset_trip_fields:
  "pickup_label reset_trip = ''Pickup''" "dropoff_label reset_trip = ''Dropoff''"
  "pickup_coords reset_trip = (0, 0)" "dropoff_coords reset_trip = (0, 0)"
  "total_drive_minutes reset_trip = 780" "total_miles reset_trip = 800"
  "cycle_used_hours reset_trip = 0" "start_date reset_trip = Some 739252"
  by (simp_all add: reset_trip_def default_args_def)

lemma reset_trip_legs: "effective_legs reset_trip = ((240, 234), (560, 546))"
  by (simp add: effective_legs_def reset_trip_def default_args_def py_int_def float_eval)

lemma reset_trip_initial:
  "initial_state reset_trip =
     \<lparr>global_minute = 0, drive_minutes = 0, on_duty_minutes = 0, cumulative_drive = 0,
      cycle_minutes = 0, miles_since_fuel = 0, timeline = [], stops = []\<rparr>"
  by (simp add: initial_state_def reset_trip_fields py_int_def fmul_def)

lemma reset_trip_after_dropoff:
  "state_after_dropoff reset_trip =
     \<lparr>global_minute = 1530, drive_minutes = 120, on_duty_minutes = 180,
      cumulative_drive = 120, cycle_minutes = 900, miles_since_fuel = 800,
      timeline =
        [\<lparr>ev_start = 0, ev_end = 234, ev_status = DRIVING,
           ev_label = ''En route to pickup'', ev_miles = 240\<rparr>,
         \<lparr>ev_start = 234, ev_end = 294, ev_status = ON_DUTY_NOT_DRIVING,
           ev_label = ''Pickup'', ev_miles = 0\<rparr>,
         \<lparr>ev_start = 294, ev_end = 540, ev_status = DRIVING,
           ev_label = ''En route to dropoff'',
           ev_miles = 4438643863514191 / 17592186044416\<rparr>,
         \<lparr>ev_start = 540, ev_end = 570, ev_status = OFF_DUTY,
           ev_label = ''30-min break'', ev_miles = 0\<rparr>,
         \<lparr>ev_start = 570, ev_end = 750, ev_status = DRIVING,
           ev_label = ''En route to dropoff'',
           ev_miles = 6495576385630523 / 35184372088832\<rparr>,
         \<lparr>ev_start = 750, ev_end = 1350, ev_status = SLEEPER,
           ev_label = ''10-hour sleeper berth reset'', ev_miles = 0\<rparr>,
         \<lparr>ev_start = 1350, ev_end = 1470, ev_status = DRIVING,
           ev_label = ''En route to dropoff'',
           ev_miles = 4330384257087015 / 35184372088832\<rparr>,
         \<lparr>ev_start = 1470, ev_end = 1530, ev_status = ON_DUTY_NOT_DRIVING,
           ev_label = ''Dropoff'', ev_miles = 0\<rparr>],
      stops =
        [\<lparr>stop_kind = PICKUP, stop_global_minute = 234, stop_duration = 60,
           stop_label = ''Pickup'', stop_lat = 0, stop_lng = 0\<rparr>,
         \<lparr>stop_kind = BREAK_30, stop_global_minute = 540, stop_duration = 30,
           stop_label = ''30-min break '' @ EM_DASH @ '' En route to dropoff'',
           stop_lat = 0, stop_lng = 0\<rparr>,
         \<lparr>stop_kind = OFF_DUTY_10, stop_global_minute = 750, stop_duration = 600,
           stop_label = ''10-hour off-duty reset'', stop_lat = 0, stop_lng = 0\<rparr>,
         \<lparr>stop_kind = DROPOFF, stop_global_minute = 1470, stop_duration = 60,
           stop_label = ''Dropoff'', stop_lat = 0, stop_lng = 0\<rparr>]\<rparr>"
proof -
  have composed: "state_after_dropoff reset_trip =
      insert_on_duty_stop
        (drive_leg
          (insert_on_duty_stop
            (drive_leg (initial_state reset_trip) 240 234 ''En route to pickup'')
            60 PICKUP ''Pickup'' 0 0)
          560 546 ''En route to dropoff'')
        60 DROPOFF ''Dropoff'' 0 0"
    by (simp add: state_after_dropoff_def reset_trip_legs reset_trip_fields
        PICKUP_DURATION_def DROPOFF_DURATION_def)
  show ?thesis
    unfolding composed by (simp add: reset_trip_initial leg_eval float_eval)
qed

lemma reset_trip_timeline:
  "plan_timeline (compute_plan today reset_trip) =
     timeline (state_after_dropoff reset_trip) @
       [\<lparr>ev_start = 1530, ev_end = 2880, ev_status = OFF_DUTY,
         ev_label = ''Off Duty'', ev_miles = 0\<rparr>]"
  by (simp add: plan_timeline_eq fill_last_day_def reset_trip_after_dropoff MINUTES_IN_DAY_def)

lemma reset_trip_stops:
  "plan_stops (compute_plan today reset_trip) = stops (state_after_dropoff reset_trip)"
  by (rule plan_stops_eq)

section \<open>Further properties of the loop\<close>

subsection \<open>Rounding of large numbers\<close>




lemma fl_of_int_exact:
  assumes "\<bar>k\<bar> < 2 ^ 53"
  shows "fl (of_int k) = of_int k"
proof -
  from assms have "\<bar>of_int k :: real\<bar> < of_int (2 ^ 53)"
    by (simp only: of_int_abs[symmetric] of_int_less_iff)
  then have "\<bar>of_int k :: real\<bar> < 2 powi (52 + 1)" by simp
  then have "binade (of_int k) \<le> 52" by (rule binade_le) simp
  from fl_le_int[OF _ this, of k] fl_ge_int[OF _ this, of k] show ?thesis by simp
qed

subsection \<open>An exhausted cycle\<close>





subsection \<open>The driving of a leg\<close>

lemma drive_leg_driving:
  "driving_minutes (timeline (drive_leg s rm rmin l))
     \<le> driving_minutes (timeline s) + max 0 rmin"
proof (induction s rm rmin l rule: drive_leg.induct)
  case (1 state remaining_miles remaining_minutes label)
  show ?case
  proof (cases "0 < remaining_minutes")
    case False
    then show ?thesis by (simp add: drive_leg.simps)
  next
    case pos: True
    show ?thesis
    proof (cases "drive_leg_body state remaining_miles remaining_minutes label")
      case None
      with pos show ?thesis by (simp add: drive_leg.simps)
    next
      case (Some r)
      obtain s' rm' rmin' where r: "r = (s', rm', rmin')" by (cases r) auto
      note body = Some[unfolded r]
      have eq: "drive_leg state remaining_miles remaining_minutes label
          = drive_leg s' rm' rmin' label"
        using pos Some r by (simp add: drive_leg.simps[of state])
      note IH = "1.IH"[OF pos body refl refl]
      from pos body
      have "driving_minutes (timeline s') + max 0 rmin'
          \<le> driving_minutes (timeline state) + max 0 remaining_minutes"
      proof (cases rule: drive_leg_body_cases)
        case reset
        then show ?thesis by (simp add: insert_reset_fields driving_minutes_single)
      next
        case break
        then show ?thesis by (simp add: insert_break_fields driving_minutes_single)
      next
        case fuel
        then show ?thesis by (simp add: insert_fuel_stop_fields driving_minutes_single)
      next
        case (drive d m)
        then show ?thesis by (simp add: drive_chunk_fields driving_minutes_single)
      qed
      with IH eq show ?thesis by simp
    qed
  qed
qed

lemma insert_on_duty_stop_driving:
  "driving_minutes (timeline (insert_on_duty_stop s d k l lat lng))
     = driving_minutes (timeline s)"
  by (simp add: insert_on_duty_stop_eq on_duty_block_fields insert_reset_fields
      driving_minutes_single)

lemma fill_last_day_driving:
  "driving_minutes (timeline (fill_last_day s)) = driving_minutes (timeline s)"
  by (simp add: fill_last_day_fields driving_minutes_single)

lemma plan_driving:
  "driving_minutes (plan_timeline (compute_plan today args))
     \<le> max 0 (snd (fst (effective_legs args))) + max 0 (snd (snd (effective_legs args)))"
proof -
  obtain a b c d where legs: "effective_legs args = ((a, b), (c, d))"
    by (metis surj_pair)
  let ?s1 = "drive_leg (initial_state args) a b ''En route to pickup''"
  let ?s2 = "insert_on_duty_stop ?s1 PICKUP_DURATION PICKUP (pickup_label args)
      (fst (pickup_coords args)) (snd (pickup_coords args))"
  let ?s3 = "drive_leg ?s2 c d ''En route to dropoff''"
  have "driving_minutes (timeline ?s1) \<le> max 0 b"
    using drive_leg_driving[of "initial_state args" a b] by (simp add: initial_state_fields)
  moreover have "driving_minutes (timeline ?s3) \<le> driving_minutes (timeline ?s2) + max 0 d"
    by (rule drive_leg_driving)
  ultimately have "driving_minutes (timeline ?s3) \<le> max 0 b + max 0 d"
    by (simp add: insert_on_duty_stop_driving)
  then show ?thesis
    by (simp add: plan_timeline_eq fill_last_day_driving state_after_dropoff_def legs
        insert_on_duty_stop_driving)
qed

lemma default_split_minutes:
  assumes "0 \<le> t" "t < 2 ^ 53"
  shows "0 \<le> py_int (fmul (float_of_int t) (fl (3 / 10)))"
    and "py_int (fmul (float_of_int t) (fl (3 / 10))) \<le> t"
proof -
  have c: "fl (3 / 10) = 5404319552844595 / 18014398509481984"
    by (simp add: fl_lit)
  have a: "float_of_int t = of_int t"
    unfolding float_of_int_def using assms by (intro fl_of_int_exact) simp
  let ?x = "of_int t * (5404319552844595 / 18014398509481984) :: real"
  have x: "0 \<le> ?x" "?x \<le> of_int t" using assms(1) by simp_all
  from assms have "(of_int t :: real) < of_int (2 ^ 53)" by (simp only: of_int_less_iff)
  with x have "\<bar>?x\<bar> < 2 powi (52 + 1)" by simp
  then have b: "binade ?x \<le> 52" by (rule binade_le) simp
  have "of_int 0 \<le> fl ?x" by (rule fl_ge_int[OF _ b]) (use x in simp)
  moreover have "fl ?x \<le> of_int t" by (rule fl_le_int[OF x(2) b])
  ultimately show "0 \<le> py_int (fmul (float_of_int t) (fl (3 / 10)))"
    and "py_int (fmul (float_of_int t) (fl (3 / 10))) \<le> t"
    by (simp_all add: py_int_def fmul_def a c floor_le_iff le_floor_iff)
       (linarith+)?
qed

subsection \<open>The bound on the passes of the loop\<close>

lemma pending_le: "pending s \<le> 7"
  by (simp add: pending_def)

lemma drive_leg_fuel_enough:
  "8 * nat rmin + pending s < n \<Longrightarrow>
   drive_leg_fuel n s rm rmin l = Some (drive_leg s rm rmin l)"
proof (induction n arbitrary: s rm rmin)
  case 0
  then show ?case by simp
next
  case (Suc n)
  show ?case
  proof (cases "0 < rmin")
    case False
    then show ?thesis by (simp add: drive_leg.simps)
  next
    case pos: True
    show ?thesis
    proof (cases "drive_leg_body s rm rmin l")
      case None
      with pos show ?thesis by (simp add: drive_leg.simps)
    next
      case (Some r)
      obtain s' rm' rmin' where r: "r = (s', rm', rmin')" by (cases r) auto
      from drive_leg_body_decreases[OF pos Some[unfolded r]]
      have d: "0 \<le> rmin'" "rmin' < rmin \<or> rmin' = rmin \<and> pending s' < pending s"
        by simp_all
      have "8 * nat rmin' + pending s' < n"
      proof (cases "rmin' < rmin")
        case True
        with d(1) have "nat rmin' + 1 \<le> nat rmin" by linarith
        with pending_le[of s'] Suc.prems show ?thesis by linarith
      next
        case False
        with d(2) Suc.prems show ?thesis by simp
      qed
      from Suc.IH[OF this, of rm'] pos Some r show ?thesis
        by (simp add: drive_leg.simps[of s])
    qed
  qed
qed

lemma compute_plan_fuel_enough:
  assumes "8 * nat (snd (fst (effective_legs args))) + 8 \<le> n"
    and "8 * nat (snd (snd (effective_legs args))) + 8 \<le> n"
  shows "compute_plan_fuel n today args = Some (compute_plan today args)"
proof -
  obtain a b c d where legs: "effective_legs args = ((a, b), (c, d))"
    by (metis surj_pair)
  have 1: "drive_leg_fuel n s rm b l = Some (drive_leg s rm b l)" for s rm l
    using assms(1) pending_le[of s] by (intro drive_leg_fuel_enough) (simp add: legs)
  have 2: "drive_leg_fuel n s rm d l = Some (drive_leg s rm d l)" for s rm l
    using assms(2) pending_le[of s] by (intro drive_leg_fuel_enough) (simp add: legs)
  show ?thesis
    by (simp add: compute_plan_fuel_def compute_plan_def legs 1 2 Let_def)
qed

section \<open>C1: the 11-hour driving limit\<close>

text \<open>
  C1: for every input, every duty period of the returned timeline (a span between
  10-hour \<^verbatim>\<open>SLEEPER\<close> events, from the start to the first of them, or from the last
  to the end) holds at most 660 + 1 minutes of \<^verbatim>\<open>DRIVING\<close>, and no \<^verbatim>\<open>DRIVING\<close> event
  takes the driving total of its duty period, the event included, past 660.
\<close>

theorem C1_driving_limit:
  "(\<forall>p\<in>set (duty_periods (plan_timeline (compute_plan today args))).
      driving_minutes p \<le> DRIVE_LIMIT + 1) \<and>
   (\<forall>n<length (plan_timeline (compute_plan today args)).
      ev_status (plan_timeline (compute_plan today args) ! n) = DRIVING \<longrightarrow>
      period_driving (take (Suc n) (plan_timeline (compute_plan today args))) \<le> DRIVE_LIMIT)"
proof -
  let ?tl = "plan_timeline (compute_plan today args)"
  have "\<forall>p\<in>set (duty_periods ?tl). driving_minutes p \<le> DRIVE_LIMIT + 1"
    using plan_periods[of today args] by (auto simp add: DRIVE_LIMIT_def)
  moreover have "\<forall>n<length ?tl. ev_status (?tl ! n) = DRIVING \<longrightarrow>
      period_driving (take (Suc n) ?tl) \<le> DRIVE_LIMIT"
    using each_eventD[OF plan_period_events[of today args]]
    by (simp add: take_Suc_conv_app_nth DRIVE_LIMIT_def)
  ultimately show ?thesis by blast
qed

text \<open>
  The instance of the worked call: two duty periods, with 660 and 120 minutes of
  driving; the third driving event, at index 4, completes the 660 minutes of the
  first.
\<close>

theorem C1_driving_limit_witness:
  "map driving_minutes (duty_periods (plan_timeline (compute_plan 0 reset_trip))) = [660, 120] \<and>
   ev_status (plan_timeline (compute_plan 0 reset_trip) ! 4) = DRIVING \<and>
   period_driving (take (Suc 4) (plan_timeline (compute_plan 0 reset_trip))) = 660 \<and>
   660 \<le> DRIVE_LIMIT"
  using C1_driving_limit[of 0 reset_trip]
  by (simp add: reset_trip_timeline reset_trip_after_dropoff duty_periods_def period_driving_def
      is_reset_def driving_minutes_def OFF_DUTY_RESET_def DRIVE_LIMIT_def)

section \<open>C2: an exhausted cycle\<close>




section \<open>C3: the conversion of the cycle hours\<close>

text \<open>
  C3, as claimed: for every \<^verbatim>\<open>cycle_used_hours\<close> in \<open>[0, 70]\<close> the initial
  \<^verbatim>\<open>cycle_minutes\<close> is \<^verbatim>\<open>round(cycle_used_hours * 60)\<close>. The source converts
  with \<^verbatim>\<open>int\<close>, which truncates: at 97/64 hours (1.515625, a double) the product is
  the double 90.9375, and the state starts with 90 cycle minutes, where rounding the
  product gives 91.
\<close>

theorem C3_round_counterexample:
  "(0::real) \<le> 97 / 64 \<and> (97 / 64 :: real) \<le> 70 \<and>
   fmul (cycle_used_hours (default_args 150 180 (97 / 64))) 60 = 1455 / 16 \<and>
   cycle_minutes (initial_state (default_args 150 180 (97 / 64))) = 90 \<and>
   py_round (fmul (cycle_used_hours (default_args 150 180 (97 / 64))) 60) = 91 \<and>
   py_round (cycle_used_hours (default_args 150 180 (97 / 64)) * 60) = 91"
  by (simp add: initial_state_def default_args_def py_int_def fmul_def fl_eval)

text \<open>
  C3, amended: for every \<^verbatim>\<open>cycle_used_hours\<close> in \<open>[0, 70]\<close> the initial
  \<^verbatim>\<open>cycle_minutes\<close> is \<^verbatim>\<open>int(cycle_used_hours * 60)\<close>: the floating point product
  with its fraction cut off (the largest integer that does not exceed the computed
  product), a number of minutes between 0 and 4200.
\<close>

theorem C3_cycle_minutes_truncated:
  assumes "0 \<le> cycle_used_hours args" and "cycle_used_hours args \<le> 70"
  shows "cycle_minutes (initial_state args) = \<lfloor>fmul (cycle_used_hours args) 60\<rfloor> \<and>
         of_int (cycle_minutes (initial_state args)) \<le> fmul (cycle_used_hours args) 60 \<and>
         fmul (cycle_used_hours args) 60 < of_int (cycle_minutes (initial_state args)) + 1 \<and>
         0 \<le> cycle_minutes (initial_state args) \<and>
         cycle_minutes (initial_state args) \<le> CYCLE_LIMIT"
proof -
  let ?x = "cycle_used_hours args * 60"
  let ?p = "fmul (cycle_used_hours args) 60"
  have x: "0 \<le> ?x" "?x \<le> 4200" using assms by simp_all
  then have "\<bar>?x\<bar> < 2 powi (12 + 1)" by simp
  then have "binade ?x \<le> 12" by (rule binade_le) simp
  then have b: "binade ?x \<le> 52" by simp
  have p0: "0 \<le> ?p"
    using fl_ge_int[of 0 ?x] x(1) b by (simp add: fmul_def)
  have p1: "?p \<le> 4200"
    using fl_le_int[of ?x 4200] x(2) b by (simp add: fmul_def)
  have cm: "cycle_minutes (initial_state args) = \<lfloor>?p\<rfloor>"
    using p0 by (simp add: initial_state_def py_int_def)
  from p0 p1 have "0 \<le> \<lfloor>?p\<rfloor>" and "\<lfloor>?p\<rfloor> \<le> 4200"
    by (simp_all add: floor_le_iff le_floor_iff)
  moreover have "of_int \<lfloor>?p\<rfloor> \<le> ?p" and "?p < of_int \<lfloor>?p\<rfloor> + 1"
    by linarith+
  ultimately show ?thesis
    unfolding cm CYCLE_LIMIT_def by simp
qed

text \<open>
  An instance: at the double nearest to 0.35 the computed product is 21.0, although
  the exact product is below 21, and the state starts with 21 cycle minutes.
\<close>

theorem C3_cycle_minutes_truncated_witness:
  "(0::real) \<le> cycle_used_hours (default_args 150 180 (3152519739159347 / 9007199254740992)) \<and>
   cycle_used_hours (default_args 150 180 (3152519739159347 / 9007199254740992)) \<le> 70 \<and>
   cycle_used_hours (default_args 150 180 (3152519739159347 / 9007199254740992)) * 60 < 21 \<and>
   fmul (cycle_used_hours (default_args 150 180 (3152519739159347 / 9007199254740992))) 60 = 21 \<and>
   cycle_minutes (initial_state (default_args 150 180 (3152519739159347 / 9007199254740992))) = 21"
proof -
  let ?a = "default_args 150 180 (3152519739159347 / 9007199254740992)"
  have h: "(0::real) \<le> cycle_used_hours ?a" "cycle_used_hours ?a \<le> 70"
    "cycle_used_hours ?a * 60 < 21"
    by (simp_all add: default_args_def)
  have f: "fmul (cycle_used_hours ?a) 60 = 21"
    by (simp add: default_args_def fmul_def fl_eval)
  from C3_cycle_minutes_truncated[OF h(1,2)] f h show ?thesis by simp
qed

section \<open>C4: the planned driving and the total\<close>

text \<open>
  \<^verbatim>\<open>compute_plan(100, 100, 0, leg1_miles=30, leg1_minutes=60, leg2_miles=70,
  leg2_minutes=60)\<close>: the overrides of the two legs hold 120 minutes, the total 100.
\<close>

definition override_trip :: PlanArgs where
  "override_trip =
     (default_args 100 100 0)\<lparr>leg1_miles := Some 30, leg1_minutes := Some 60,
                               leg2_miles := Some 70, leg2_minutes := Some 60\<rparr>"

lemma override_trip_fields:
  "pickup_label override_trip = ''Pickup''" "dropoff_label override_trip = ''Dropoff''"
  "pickup_coords override_trip = (0, 0)" "dropoff_coords override_trip = (0, 0)"
  "total_drive_minutes override_trip = 100" "total_miles override_trip = 100"
  "cycle_used_hours override_trip = 0"
  "leg1_miles override_trip = Some 30" "leg1_minutes override_trip = Some 60"
  "leg2_miles override_trip = Some 70" "leg2_minutes override_trip = Some 60"
  by (simp_all add: override_trip_def default_args_def)

lemma override_trip_legs: "effective_legs override_trip = ((30, 60), (70, 60))"
  by (simp add: effective_legs_def override_trip_fields)

lemma override_trip_initial:
  "initial_state override_trip =
     \<lparr>global_minute = 0, drive_minutes = 0, on_duty_minutes = 0, cumulative_drive = 0,
      cycle_minutes = 0, miles_since_fuel = 0, timeline = [], stops = []\<rparr>"
  by (simp add: initial_state_def override_trip_fields py_int_def fmul_def)

lemma override_trip_timeline:
  "map (\<lambda>e. (ev_start e, ev_end e, ev_status e)) (plan_timeline (compute_plan today override_trip)) =
     [(0, 60, DRIVING), (60, 120, ON_DUTY_NOT_DRIVING), (120, 180, DRIVING),
      (180, 240, ON_DUTY_NOT_DRIVING), (240, 1440, OFF_DUTY)]"
proof -
  have composed: "state_after_dropoff override_trip =
      insert_on_duty_stop
        (drive_leg
          (insert_on_duty_stop
            (drive_leg (initial_state override_trip) 30 60 ''En route to pickup'')
            60 PICKUP ''Pickup'' 0 0)
          70 60 ''En route to dropoff'')
        60 DROPOFF ''Dropoff'' 0 0"
    by (simp add: state_after_dropoff_def override_trip_legs override_trip_fields
        PICKUP_DURATION_def DROPOFF_DURATION_def)
  show ?thesis
    unfolding plan_timeline_eq composed
    by (simp add: override_trip_initial fill_last_day_def leg_eval float_eval)
qed

text \<open>
  C4, as claimed: for every output, also of a call with overrides for the legs, the
  \<^verbatim>\<open>DRIVING\<close> events sum to at most \<^verbatim>\<open>total_drive_minutes\<close>. The loop of a leg is
  bounded by the minutes of the leg, not by the total: with overrides of 60 minutes
  for each leg and a total of 100 the plan drives 120 minutes.
\<close>

theorem C4_overrides_counterexample:
  "total_drive_minutes override_trip = 100 \<and>
   leg1_minutes override_trip = Some 60 \<and> leg2_minutes override_trip = Some 60 \<and>
   driving_minutes (plan_timeline (compute_plan 0 override_trip)) = 120 \<and>
   total_drive_minutes override_trip
     < driving_minutes (plan_timeline (compute_plan 0 override_trip))"
proof -
  have "driving_minutes (plan_timeline (compute_plan 0 override_trip)) =
      sum_list (map (\<lambda>(a, b, s). b - a) (filter (\<lambda>(a, b, s). s = DRIVING)
        (map (\<lambda>e. (ev_start e, ev_end e, ev_status e))
          (plan_timeline (compute_plan 0 override_trip)))))"
    by (simp add: driving_minutes_def filter_map comp_def case_prod_beta)
  also have "\<dots> = 120" by (simp add: override_trip_timeline)
  finally show ?thesis by (simp add: override_trip_fields)
qed

text \<open>
  C4, amended: for every output the \<^verbatim>\<open>DRIVING\<close> events sum to at most the minutes of
  the two legs that are driven, a negative number of minutes counting as none. These
  are the overrides of a call that supplies them for both legs. For a call that
  supplies complete overrides for neither leg they are the 30/70 split of
  \<^verbatim>\<open>total_drive_minutes\<close>, and the sum is at most \<^verbatim>\<open>total_drive_minutes\<close>, if that is
  not negative (and below \<open>2\<^sup>5\<^sup>3\<close>, so that it is a double).
\<close>

theorem C4_driving_within_legs:
  "driving_minutes (plan_timeline (compute_plan today args))
     \<le> max 0 (snd (fst (effective_legs args))) + max 0 (snd (snd (effective_legs args))) \<and>
   (\<forall>m1 t1 m2 t2.
      leg1_miles args = Some m1 \<and> leg1_minutes args = Some t1 \<and>
      leg2_miles args = Some m2 \<and> leg2_minutes args = Some t2 \<longrightarrow>
      driving_minutes (plan_timeline (compute_plan today args)) \<le> max 0 t1 + max 0 t2) \<and>
   ((leg1_miles args = None \<or> leg1_minutes args = None) \<and>
    (leg2_miles args = None \<or> leg2_minutes args = None) \<and>
    0 \<le> total_drive_minutes args \<and> total_drive_minutes args < 2 ^ 53 \<longrightarrow>
      driving_minutes (plan_timeline (compute_plan today args)) \<le> total_drive_minutes args)"
proof -
  let ?d = "driving_minutes (plan_timeline (compute_plan today args))"
  note legs = plan_driving[of today args]
  have over: "?d \<le> max 0 t1 + max 0 t2"
    if "leg1_miles args = Some m1" "leg1_minutes args = Some t1"
      "leg2_miles args = Some m2" "leg2_minutes args = Some t2" for m1 t1 m2 t2
    using legs that by (simp add: effective_legs_def)
  have split: "?d \<le> total_drive_minutes args"
    if n1: "leg1_miles args = None \<or> leg1_minutes args = None"
      and n2: "leg2_miles args = None \<or> leg2_minutes args = None"
      and t: "0 \<le> total_drive_minutes args" "total_drive_minutes args < 2 ^ 53"
  proof -
    let ?t1 = "py_int (fmul (float_of_int (total_drive_minutes args)) (fl (3 / 10)))"
    from n1 have 1: "snd (fst (effective_legs args)) = ?t1"
      by (auto simp add: effective_legs_def Let_def split: option.splits prod.splits)
    from n1 n2 have 2: "snd (snd (effective_legs args)) = total_drive_minutes args - ?t1"
      by (auto simp add: effective_legs_def Let_def split: option.splits prod.splits)
    from default_split_minutes[OF t] legs show ?thesis
      unfolding 1 2 by simp
  qed
  from legs over split show ?thesis by blast
qed

text \<open>
  The instance of the worked call, without overrides: legs of 234 and 546 minutes,
  and 780 minutes driven of a total of 780.
\<close>

theorem C4_driving_within_legs_witness:
  "leg1_miles reset_trip = None \<and> leg2_miles reset_trip = None \<and>
   0 \<le> total_drive_minutes reset_trip \<and> total_drive_minutes reset_trip < 2 ^ 53 \<and>
   effective_legs reset_trip = ((240, 234), (560, 546)) \<and>
   driving_minutes (plan_timeline (compute_plan 0 reset_trip)) = 780 \<and>
   driving_minutes (plan_timeline (compute_plan 0 reset_trip)) \<le> total_drive_minutes reset_trip"
proof -
  have h: "leg1_miles reset_trip = None" "leg2_miles reset_trip = None"
    "0 \<le> total_drive_minutes reset_trip" "total_drive_minutes reset_trip < 2 ^ 53"
    by (simp_all add: reset_trip_def default_args_def)
  have d: "driving_minutes (plan_timeline (compute_plan 0 reset_trip)) = 780"
    by (simp add: reset_trip_timeline reset_trip_after_dropoff driving_minutes_def)
  from C4_driving_within_legs[of 0 reset_trip] h
  have "driving_minutes (plan_timeline (compute_plan 0 reset_trip))
      \<le> total_drive_minutes reset_trip" by blast
  with h d reset_trip_legs show ?thesis by simp
qed

section \<open>C5: the 30-minute break\<close>

lemma cumulative_driving_append:
  "\<forall>e\<in>set ys. \<not> is_rest e \<Longrightarrow>
   cumulative_driving (xs @ ys) = cumulative_driving xs + driving_minutes ys"
proof (induction ys rule: rev_induct)
  case Nil
  then show ?case by simp
next
  case (snoc y ys)
  then have "cumulative_driving (xs @ ys) = cumulative_driving xs + driving_minutes ys"
    and "\<not> is_rest y" by simp_all
  then show ?case
    using cumulative_driving_snoc[of "xs @ ys" y] by (simp add: driving_minutes_single)
qed

lemma cumulative_driving_nonneg:
  "\<forall>e\<in>set es. ev_start e \<le> ev_end e \<Longrightarrow> 0 \<le> cumulative_driving es"
proof (induction es rule: rev_induct)
  case Nil
  then show ?case by simp
next
  case (snoc e es)
  then have "0 \<le> cumulative_driving es" and "ev_start e \<le> ev_end e" by simp_all
  then show ?case by (simp add: cumulative_driving_snoc)
qed

lemma driving_not_rest: "ev_status e = DRIVING \<Longrightarrow> \<not> is_rest e"
  by (simp add: is_rest_def is_break_def is_reset_def)

text \<open>
  C5: for every input, a \<^verbatim>\<open>DRIVING\<close> event is emitted only while the driving since
  the last 30-minute \<^verbatim>\<open>OFF_DUTY\<close> event or 600-minute \<^verbatim>\<open>SLEEPER\<close> event is below 480
  minutes, and it does not carry that total past 480. Hence, when the driving from
  one \<^verbatim>\<open>DRIVING\<close> event to a later one, both included, exceeds 480 minutes, such a
  break or reset lies between the two.
\<close>

theorem C5_break_before_eight_hours:
  "(\<forall>n<length (plan_timeline (compute_plan today args)).
      ev_status (plan_timeline (compute_plan today args) ! n) = DRIVING \<longrightarrow>
      cumulative_driving (take n (plan_timeline (compute_plan today args))) < BREAK_TRIGGER \<and>
      cumulative_driving (take (Suc n) (plan_timeline (compute_plan today args)))
        \<le> BREAK_TRIGGER) \<and>
   (\<forall>i j. i < j \<and> j < length (plan_timeline (compute_plan today args)) \<and>
      ev_status (plan_timeline (compute_plan today args) ! i) = DRIVING \<and>
      ev_status (plan_timeline (compute_plan today args) ! j) = DRIVING \<and>
      BREAK_TRIGGER
        < driving_minutes (take (Suc j - i) (drop i (plan_timeline (compute_plan today args))))
      \<longrightarrow> (\<exists>k. i < k \<and> k < j \<and> is_rest (plan_timeline (compute_plan today args) ! k)))"
proof -
  let ?tl = "plan_timeline (compute_plan today args)"
  have first: "cumulative_driving (take n ?tl) < BREAK_TRIGGER \<and>
      cumulative_driving (take (Suc n) ?tl) \<le> BREAK_TRIGGER"
    if "n < length ?tl" "ev_status (?tl ! n) = DRIVING" for n
    using each_eventD[OF plan_cumulative_events[of today args] that(1)] that
    by (simp add: take_Suc_conv_app_nth BREAK_TRIGGER_def)
  have second: "\<exists>k. i < k \<and> k < j \<and> is_rest (?tl ! k)"
    if ij: "i < j" "j < length ?tl" and di: "ev_status (?tl ! i) = DRIVING"
      and dj: "ev_status (?tl ! j) = DRIVING"
      and long: "BREAK_TRIGGER < driving_minutes (take (Suc j - i) (drop i ?tl))" for i j
  proof (rule ccontr)
    assume none: "\<not> (\<exists>k. i < k \<and> k < j \<and> is_rest (?tl ! k))"
    let ?mid = "take (Suc j - i) (drop i ?tl)"
    have split: "take (Suc j) ?tl = take i ?tl @ ?mid"
      using ij take_add[of i "Suc j - i" ?tl] by simp
    have "\<not> is_rest e" if "e \<in> set ?mid" for e
    proof -
      from that obtain m where m: "m < length ?mid" "e = ?mid ! m"
        by (auto simp add: in_set_conv_nth)
      with ij have e: "e = ?tl ! (i + m)" and mb: "i + m \<le> j" by auto
      consider "m = 0" | "i + m = j" | "i < i + m" "i + m < j" using mb by linarith
      then show ?thesis
      proof cases
        case 1
        with e di show ?thesis by (simp add: driving_not_rest)
      next
        case 2
        with e dj show ?thesis by (simp add: driving_not_rest)
      next
        case 3
        with none e show ?thesis by blast
      qed
    qed
    then have "cumulative_driving (take i ?tl @ ?mid)
        = cumulative_driving (take i ?tl) + driving_minutes ?mid"
      by (intro cumulative_driving_append) blast
    moreover have "0 \<le> cumulative_driving (take i ?tl)"
    proof (rule cumulative_driving_nonneg, rule ballI)
      fix e assume "e \<in> set (take i ?tl)"
      then have "e \<in> set ?tl" by (rule in_set_takeD)
      from chain_positive[OF plan_chain[of today args] this] show "ev_start e \<le> ev_end e"
        by simp
    qed
    moreover have "cumulative_driving (take (Suc j) ?tl) \<le> BREAK_TRIGGER"
      using first[OF ij(2) dj] by simp
    ultimately show False using long by (simp add: split)
  qed
  from first second show ?thesis by blast
qed

text \<open>
  The instance of the worked call: the second driving event, at index 2, starts with
  234 minutes driven and ends with 480; the break follows at index 3, between it and
  the driving event at index 4.
\<close>

theorem C5_break_before_eight_hours_witness:
  "ev_status (plan_timeline (compute_plan 0 reset_trip) ! 2) = DRIVING \<and>
   ev_status (plan_timeline (compute_plan 0 reset_trip) ! 4) = DRIVING \<and>
   cumulative_driving (take 2 (plan_timeline (compute_plan 0 reset_trip))) = 234 \<and>
   cumulative_driving (take (Suc 2) (plan_timeline (compute_plan 0 reset_trip))) = 480 \<and>
   driving_minutes (take (Suc 4 - 2) (drop 2 (plan_timeline (compute_plan 0 reset_trip))))
     = 426 + 0 \<and>
   driving_minutes (take (Suc 4 - 0) (drop 0 (plan_timeline (compute_plan 0 reset_trip))))
     = 660 \<and>
   is_rest (plan_timeline (compute_plan 0 reset_trip) ! 3) \<and>
   (\<exists>k. 0 < k \<and> k < 4 \<and> is_rest (plan_timeline (compute_plan 0 reset_trip) ! k))"
proof -
  let ?tl = "plan_timeline (compute_plan 0 reset_trip)"
  have facts: "length ?tl = 9" "ev_status (?tl ! 0) = DRIVING" "ev_status (?tl ! 2) = DRIVING"
    "ev_status (?tl ! 4) = DRIVING"
    "cumulative_driving (take 2 ?tl) = 234"
    "cumulative_driving (take (Suc 2) ?tl) = 480"
    "driving_minutes (take (Suc 4 - 2) (drop 2 ?tl)) = 426"
    "driving_minutes (take (Suc 4 - 0) (drop 0 ?tl)) = 660"
    "is_rest (?tl ! 3)"
    by (simp_all add: reset_trip_timeline reset_trip_after_dropoff cumulative_driving_def
        is_rest_def is_break_def is_reset_def driving_minutes_def hos_constants)
  from C5_break_before_eight_hours[of 0 reset_trip]
  have "\<exists>k. 0 < k \<and> k < 4 \<and> is_rest (?tl ! k)"
    using facts by (auto simp add: BREAK_TRIGGER_def)
  with facts show ?thesis by simp
qed

section \<open>C6: the timeline is contiguous\<close>

text \<open>
  C6: for every input the returned timeline is a contiguous sequence without
  overlaps. It is not empty, its first event starts at minute 0, every event ends
  after it starts, each event ends where the next one starts, and an earlier event
  ends before a later one starts.
\<close>

theorem C6_timeline_contiguous:
  "plan_timeline (compute_plan today args) \<noteq> [] \<and>
   ev_start (plan_timeline (compute_plan today args) ! 0) = 0 \<and>
   (\<forall>i<length (plan_timeline (compute_plan today args)).
      ev_start (plan_timeline (compute_plan today args) ! i)
        < ev_end (plan_timeline (compute_plan today args) ! i)) \<and>
   (\<forall>i. Suc i < length (plan_timeline (compute_plan today args)) \<longrightarrow>
      ev_end (plan_timeline (compute_plan today args) ! i)
        = ev_start (plan_timeline (compute_plan today args) ! Suc i)) \<and>
   (\<forall>i j. i < j \<and> j < length (plan_timeline (compute_plan today args)) \<longrightarrow>
      ev_end (plan_timeline (compute_plan today args) ! i)
        \<le> ev_start (plan_timeline (compute_plan today args) ! j))"
proof -
  let ?tl = "plan_timeline (compute_plan today args)"
  note c = plan_chain[of today args]
  have ne: "?tl \<noteq> []" by (rule plan_timeline_not_Nil)
  have "ev_start (?tl ! 0) = 0" by (rule chain_first[OF c ne])
  moreover have "\<forall>i<length ?tl. ev_start (?tl ! i) < ev_end (?tl ! i)"
    using chain_positive[OF c] by simp
  moreover have "\<forall>i. Suc i < length ?tl \<longrightarrow> ev_end (?tl ! i) = ev_start (?tl ! Suc i)"
    using chain_adjacent[OF c] by blast
  moreover have "\<forall>i j. i < j \<and> j < length ?tl \<longrightarrow> ev_end (?tl ! i) \<le> ev_start (?tl ! j)"
    using chain_ordered[OF c] by blast
  ultimately show ?thesis using ne by blast
qed

text \<open>
  The instance of the worked call: nine events, from minute 0 to minute 2880, the
  first leg ending at minute 234 where the pickup starts.
\<close>

theorem C6_timeline_contiguous_witness:
  "length (plan_timeline (compute_plan 0 reset_trip)) = 9 \<and>
   ev_start (plan_timeline (compute_plan 0 reset_trip) ! 0) = 0 \<and>
   ev_end (plan_timeline (compute_plan 0 reset_trip) ! 0) = 234 \<and>
   ev_start (plan_timeline (compute_plan 0 reset_trip) ! 1) = 234 \<and>
   ev_end (plan_timeline (compute_plan 0 reset_trip) ! 7) = 1530 \<and>
   ev_start (plan_timeline (compute_plan 0 reset_trip) ! 8) = 1530 \<and>
   ev_end (plan_timeline (compute_plan 0 reset_trip) ! 8) = 2880"
  using C6_timeline_contiguous[of 0 reset_trip]
  by (simp add: reset_trip_timeline reset_trip_after_dropoff)

section \<open>C7: every stop has its timeline event\<close>

text \<open>
  C7: for every input, each stop of the returned \<^verbatim>\<open>stops\<close>, at minute \<open>t\<close> with
  duration \<open>d\<close>, is covered by exactly one timeline event: one event is the interval
  \<open>[t, t + d)\<close> with the status prescribed for the kind of the stop, and it is the only
  event that is this interval, and the only one that meets it.
\<close>

theorem C7_stops_covered:
  "\<forall>st\<in>set (plan_stops (compute_plan today args)).
     \<exists>i<length (plan_timeline (compute_plan today args)).
       covers (plan_timeline (compute_plan today args) ! i) st \<and>
       overlaps (plan_timeline (compute_plan today args) ! i) st \<and>
       (\<forall>j<length (plan_timeline (compute_plan today args)).
          covers (plan_timeline (compute_plan today args) ! j) st \<or>
          overlaps (plan_timeline (compute_plan today args) ! j) st \<longrightarrow> j = i)"
proof
  let ?tl = "plan_timeline (compute_plan today args)"
  note c = plan_chain[of today args]
  fix st assume "st \<in> set (plan_stops (compute_plan today args))"
  from plan_stops_covered(1)[OF this] obtain i where i: "i < length ?tl" "covers (?tl ! i) st"
    by (auto simp add: in_set_conv_nth)
  from chain_positive[OF c, of "?tl ! i"] i(1) have pos: "ev_start (?tl ! i) < ev_end (?tl ! i)"
    by simp
  with i(2) have ov: "overlaps (?tl ! i) st" by (simp add: covers_def overlaps_def)
  have co: "overlaps (?tl ! j) st" if "j < length ?tl" "covers (?tl ! j) st" for j
    using chain_positive[OF c, of "?tl ! j"] that by (simp add: covers_def overlaps_def)
  have uniq: "j = i" if j: "j < length ?tl" "overlaps (?tl ! j) st" for j
  proof (rule ccontr)
    assume "j \<noteq> i"
    then consider "j < i" | "i < j" by linarith
    then show False
    proof cases
      case 1
      from chain_ordered[OF c 1 i(1)] i(2) j(2) show False
        by (simp add: covers_def overlaps_def)
    next
      case 2
      from chain_ordered[OF c 2 j(1)] i(2) j(2) show False
        by (simp add: covers_def overlaps_def)
    qed
  qed
  from i ov co uniq
  show "\<exists>i<length ?tl. covers (?tl ! i) st \<and> overlaps (?tl ! i) st \<and>
      (\<forall>j<length ?tl. covers (?tl ! j) st \<or> overlaps (?tl ! j) st \<longrightarrow> j = i)"
    by blast
qed

text \<open>
  The instance of the worked call: its four stops, and for the break at minute 540
  the event at index 3, which neither neighbour meets.
\<close>

theorem C7_stops_covered_witness:
  "map stop_kind (plan_stops (compute_plan 0 reset_trip)) = [PICKUP, BREAK_30, OFF_DUTY_10, DROPOFF] \<and>
   plan_stops (compute_plan 0 reset_trip) ! 1 \<in> set (plan_stops (compute_plan 0 reset_trip)) \<and>
   covers (plan_timeline (compute_plan 0 reset_trip) ! 3) (plan_stops (compute_plan 0 reset_trip) ! 1) \<and>
   overlaps (plan_timeline (compute_plan 0 reset_trip) ! 3) (plan_stops (compute_plan 0 reset_trip) ! 1) \<and>
   \<not> overlaps (plan_timeline (compute_plan 0 reset_trip) ! 2) (plan_stops (compute_plan 0 reset_trip) ! 1) \<and>
   \<not> overlaps (plan_timeline (compute_plan 0 reset_trip) ! 4) (plan_stops (compute_plan 0 reset_trip) ! 1) \<and>
   (\<exists>i<length (plan_timeline (compute_plan 0 reset_trip)).
      covers (plan_timeline (compute_plan 0 reset_trip) ! i) (plan_stops (compute_plan 0 reset_trip) ! 1))"
proof -
  let ?tl = "plan_timeline (compute_plan 0 reset_trip)"
  let ?st = "plan_stops (compute_plan 0 reset_trip) ! 1"
  have facts: "map stop_kind (plan_stops (compute_plan 0 reset_trip))
      = [PICKUP, BREAK_30, OFF_DUTY_10, DROPOFF]"
    "?st \<in> set (plan_stops (compute_plan 0 reset_trip))"
    "covers (?tl ! 3) ?st" "overlaps (?tl ! 3) ?st"
    "\<not> overlaps (?tl ! 2) ?st" "\<not> overlaps (?tl ! 4) ?st"
    by (simp_all add: reset_trip_timeline reset_trip_stops reset_trip_after_dropoff
        covers_def overlaps_def)
  from C7_stops_covered[of 0 reset_trip] facts(2)
  have "\<exists>i<length ?tl. covers (?tl ! i) ?st" by blast
  with facts show ?thesis by simp
qed

section \<open>C9: termination\<close>

text \<open>
  C9: \<^verbatim>\<open>compute_plan\<close> terminates. The loop of each leg ends within
  \<open>8 * minutes + 8\<close> passes, \<open>minutes\<close> being the minutes of the leg: with that bound on
  the passes of each loop the plan is returned, and it is the plan of \<^verbatim>\<open>compute_plan\<close>.
  Every pass of the loop body either aborts the leg on an exhausted cycle, or emits a
  driving chunk of at least one minute and lowers the remaining minutes by it, or
  inserts a reset, a break or a fuel stop that was due and is no longer due after it,
  the remaining minutes unchanged.
\<close>

theorem C9_terminates:
  "(\<forall>n. 8 * nat (snd (fst (effective_legs args))) + 8 \<le> n \<and>
        8 * nat (snd (snd (effective_legs args))) + 8 \<le> n \<longrightarrow>
        compute_plan_fuel n today args = Some (compute_plan today args)) \<and>
   (\<exists>n. compute_plan_fuel n today args = Some (compute_plan today args)) \<and>
   (\<forall>s rm rmin l. 0 < rmin \<longrightarrow>
      (case drive_leg_body s rm rmin l of
         None \<Rightarrow> cycle_exhausted s
       | Some (s', rm', rmin') \<Rightarrow>
           (\<exists>d m. 1 \<le> d \<and> s' = drive_chunk s l d m \<and> rmin' = rmin - d \<and>
                  0 \<le> rmin' \<and> rmin' < rmin) \<or>
           (rmin' = rmin \<and> reset_due s \<and> s' = insert_reset s \<and> \<not> reset_due s') \<or>
           (rmin' = rmin \<and> break_due s \<and> s' = insert_break s l \<and> \<not> break_due s') \<or>
           (rmin' = rmin \<and> fuel_due s \<and> s' = insert_fuel_stop s l \<and> \<not> fuel_due s')))"
proof -
  have bound: "compute_plan_fuel n today args = Some (compute_plan today args)"
    if "8 * nat (snd (fst (effective_legs args))) + 8 \<le> n"
      "8 * nat (snd (snd (effective_legs args))) + 8 \<le> n" for n
    using that by (rule compute_plan_fuel_enough)
  have ex: "\<exists>n. compute_plan_fuel n today args = Some (compute_plan today args)"
    by (rule exI[of _ "8 * nat (snd (fst (effective_legs args))) + 8
          + (8 * nat (snd (snd (effective_legs args))) + 8)"], rule bound) simp_all
  have pass: "case drive_leg_body s rm rmin l of
         None \<Rightarrow> cycle_exhausted s
       | Some (s', rm', rmin') \<Rightarrow>
           (\<exists>d m. 1 \<le> d \<and> s' = drive_chunk s l d m \<and> rmin' = rmin - d \<and>
                  0 \<le> rmin' \<and> rmin' < rmin) \<or>
           (rmin' = rmin \<and> reset_due s \<and> s' = insert_reset s \<and> \<not> reset_due s') \<or>
           (rmin' = rmin \<and> break_due s \<and> s' = insert_break s l \<and> \<not> break_due s') \<or>
           (rmin' = rmin \<and> fuel_due s \<and> s' = insert_fuel_stop s l \<and> \<not> fuel_due s')"
    if pos: "0 < rmin" for s rm rmin l
  proof (cases "drive_leg_body s rm rmin l")
    case None
    then show ?thesis by (auto simp add: drive_leg_body_eq split: if_splits)
  next
    case (Some r)
    obtain s' rm' rmin' where r: "r = (s', rm', rmin')" by (cases r) auto
    from pos Some[unfolded r]
    have "(\<exists>d m. 1 \<le> d \<and> s' = drive_chunk s l d m \<and> rmin' = rmin - d \<and>
                  0 \<le> rmin' \<and> rmin' < rmin) \<or>
           (rmin' = rmin \<and> reset_due s \<and> s' = insert_reset s \<and> \<not> reset_due s') \<or>
           (rmin' = rmin \<and> break_due s \<and> s' = insert_break s l \<and> \<not> break_due s') \<or>
           (rmin' = rmin \<and> fuel_due s \<and> s' = insert_fuel_stop s l \<and> \<not> fuel_due s')"
    proof (cases rule: drive_leg_body_cases)
      case reset
      then show ?thesis by (simp add: reset_due_iff insert_reset_fields)
    next
      case break
      then show ?thesis by (simp add: break_due_iff insert_break_fields)
    next
      case fuel
      then show ?thesis by (simp add: fuel_due_iff insert_fuel_stop_fields)
    next
      case (drive d m)
      then have "1 \<le> d \<and> s' = drive_chunk s l d m \<and> rmin' = rmin - d \<and>
                  0 \<le> rmin' \<and> rmin' < rmin" by simp
      then show ?thesis by blast
    qed
    with Some r show ?thesis by simp
  qed
  from bound ex pass show ?thesis by blast
qed

text \<open>
  The instance of the worked call: legs of 234 and 546 minutes, so 4376 passes are
  enough for each; the first pass of the first leg drives all its 234 minutes.
\<close>

theorem C9_terminates_witness:
  "8 * nat (snd (fst (effective_legs reset_trip))) + 8 \<le> 4376 \<and>
   8 * nat (snd (snd (effective_legs reset_trip))) + 8 \<le> 4376 \<and>
   compute_plan_fuel 4376 0 reset_trip = Some (compute_plan 0 reset_trip) \<and>
   (0::int) < 234 \<and>
   snd (snd (the (drive_leg_body (initial_state reset_trip) 240 234 ''En route to pickup''))) = 0"
proof -
  have h: "8 * nat (snd (fst (effective_legs reset_trip))) + 8 \<le> 4376"
    "8 * nat (snd (snd (effective_legs reset_trip))) + 8 \<le> 4376"
    by (simp_all add: reset_trip_legs)
  have b: "snd (snd (the (drive_leg_body (initial_state reset_trip) 240 234
      ''En route to pickup''))) = 0"
    by (simp add: reset_trip_initial drive_leg_body_eq cycle_exhausted_iff reset_due_iff
        break_due_iff fuel_due_iff drivable_chunk_def hos_constants py_int_def float_eval)
  have "compute_plan_fuel 4376 0 reset_trip = Some (compute_plan 0 reset_trip)"
    using conjunct1[OF C9_terminates[of reset_trip 0]] h by blast
  with h b show ?thesis by simp
qed

section \<open>C10: determinism\<close>

lemma sheet_dates:
  "map sheet_date (build_daily_sheets events d) =
     (if events = [] then []
      else map (\<lambda>i. d + i) [0..\<lceil>int_truediv (ev_end (last events)) MINUTES_IN_DAY\<rceil> - 1])"
  by (simp add: build_daily_sheets_def build_day_sheet_def Let_def comp_def case_prod_beta)

lemma daily_sheets_eq:
  "daily_sheets (compute_plan today args) =
     build_daily_sheets (plan_timeline (compute_plan today args)) (first_date_of today args)"
  by (simp add: compute_plan_eq finish_plan_fields)

lemma effective_legs_start_date:
  "effective_legs (args\<lparr>start_date := d\<rparr>) = effective_legs args"
  by (cases "leg1_miles args"; cases "leg1_minutes args"; cases "leg2_miles args";
      cases "leg2_minutes args") (simp_all add: effective_legs_def)

lemma state_after_dropoff_start_date:
  "state_after_dropoff (args\<lparr>start_date := d\<rparr>) = state_after_dropoff args"
  by (simp add: state_after_dropoff_def effective_legs_start_date initial_state_def)

lemma finish_plan_start_date:
  "finish_plan d (args\<lparr>start_date := x\<rparr>) s = finish_plan d args s"
  by (simp add: finish_plan_def)

text \<open>
  C10, as claimed: two calls with identical inputs return equal outputs, with no
  dependence on the clock. When \<^verbatim>\<open>start_date\<close> is \<^verbatim>\<open>None\<close> the source reads
  \<^verbatim>\<open>date.today()\<close>: \<^verbatim>\<open>compute_plan(800, 780, 0)\<close>, called on the days with ordinals 0
  and 1, returns day sheets with different dates.
\<close>

theorem C10_clock_counterexample:
  "start_date (default_args 800 780 0) = None \<and>
   map sheet_date (daily_sheets (compute_plan 0 (default_args 800 780 0))) = [0, 1] \<and>
   map sheet_date (daily_sheets (compute_plan 1 (default_args 800 780 0))) = [1, 2] \<and>
   compute_plan 0 (default_args 800 780 0) \<noteq> compute_plan 1 (default_args 800 780 0)"
proof -
  let ?a = "default_args 800 780 0"
  have s: "state_after_dropoff ?a = state_after_dropoff reset_trip"
    by (simp add: reset_trip_def state_after_dropoff_start_date)
  have tl: "plan_timeline (compute_plan today ?a) = plan_timeline (compute_plan today reset_trip)"
    for today by (simp add: plan_timeline_eq s)
  have n: "start_date ?a = None" by (simp add: default_args_def)
  have d: "map sheet_date (daily_sheets (compute_plan today ?a)) = [today, today + 1]" for today
    by (simp add: daily_sheets_eq sheet_dates tl first_date_of_def n reset_trip_timeline
        reset_trip_after_dropoff MINUTES_IN_DAY_def float_eval upto.simps)
  from d[of 0] d[of 1] have "map sheet_date (daily_sheets (compute_plan 0 ?a))
      \<noteq> map sheet_date (daily_sheets (compute_plan 1 ?a))" by simp
  then have "compute_plan 0 ?a \<noteq> compute_plan 1 ?a" by auto
  with n d[of 0] d[of 1] show ?thesis by simp
qed

text \<open>
  C10, amended: the output is determined by the parameters and, when \<^verbatim>\<open>start_date\<close>
  is \<^verbatim>\<open>None\<close>, the current date. With a \<^verbatim>\<open>start_date\<close>, calls with identical inputs
  return equal outputs whatever the clock shows; without it, the call returns what the
  call with the current date as \<^verbatim>\<open>start_date\<close> returns.
\<close>

theorem C10_deterministic_given_start_date:
  "(start_date args = Some d \<longrightarrow> compute_plan today args = compute_plan today' args) \<and>
   (start_date args = None \<longrightarrow>
      compute_plan today args = compute_plan today' (args\<lparr>start_date := Some today\<rparr>))"
  by (simp add: compute_plan_eq first_date_of_def state_after_dropoff_start_date
      finish_plan_start_date)

text \<open>
  The instances of the worked call, which has a \<^verbatim>\<open>start_date\<close>, and of the same call
  without it.
\<close>

theorem C10_deterministic_given_start_date_witness:
  "start_date reset_trip = Some 739252 \<and>
   compute_plan 0 reset_trip = compute_plan 1 reset_trip \<and>
   start_date (default_args 800 780 0) = None \<and>
   compute_plan 5 (default_args 800 780 0)
     = compute_plan 9 ((default_args 800 780 0)\<lparr>start_date := Some 5\<rparr>)"
proof -
  have h: "start_date reset_trip = Some 739252" "start_date (default_args 800 780 0) = None"
    by (simp_all add: reset_trip_def default_args_def)
  from C10_deterministic_given_start_date[of reset_trip 739252 0 1]
    C10_deterministic_given_start_date[of "default_args 800 780 0" 0 5 9] h
  show ?thesis by simp
qed

end
